theory Spec2Isabelle
  imports Complex_Main
begin

section \<open>Spirograph pattern generator (modules/spiro/generator.py)\<close>

text \<open>
  The generator turns parametric curves (hypotrochoid, epitrochoid, rose, Lissajous and
  caller-supplied curves) into lists of polar coordinates \<open>(theta, rho)\<close>.

  Conventions of the embedding:
  \<^item> Python floats are modelled as the real numbers: \<open>math.pi\<close> is \<open>pi\<close>,
    \<open>math.cos\<close>, \<open>math.sin\<close>, \<open>math.sqrt\<close> are the real functions, and no
    NaN or infinity occurs. Arithmetic is exact, with one exception: the products
    \<open>x * 1000\<close> that the generators truncate with \<open>int\<close> are rounded to the nearest
    float first, as the code does. Truncation is not continuous, so there the rounding
    changes the result: for the float nearest to 0.3 the exact product is just below
    300 and truncates to 299, while the float product is 300.
  \<^item> Python integers are \<open>int\<close>.
  \<^item> An exception is a value \<open>Inl e\<close> of the sum type \<open>error + 'a\<close>; a normal return
    is \<open>Inr v\<close>. Python raises \<open>ZeroDivisionError\<close> for a division by zero on
    integers and on floats alike, so every division of the source whose divisor can be
    zero is guarded.
  \<^item> A \<open>for\<close> loop over the sample values is a recursive function over the list of
    samples that carries the loop's local state (\<open>prev_theta\<close>); a \<open>while\<close> loop is
    a \<^theory_text>\<open>function\<close> with a termination proof.
\<close>

subsection \<open>Python and NumPy primitives\<close>

datatype error = ZeroDivisionError | ValueError string | TypeError | OSError

type_synonym coordinates = "(real \<times> real) list"

definition py_int :: "real \<Rightarrow> int" where
  \<comment> \<open>\<open>int(x)\<close> on a float: truncation towards zero.\<close>
  "py_int x = (if 0 \<le> x then \<lfloor>x\<rfloor> else \<lceil>x\<rceil>)"

definition round_half_even :: "real \<Rightarrow> int" where
  \<comment> \<open>The nearest integer, a tie going to the even one.\<close>
  "round_half_even y =
     (let f = \<lfloor>y\<rfloor>; rest = y - of_int f in
      if rest < 1 / 2 then f
      else if 1 / 2 < rest then f + 1
      else if even f then f else f + 1)"

definition float_round :: "real \<Rightarrow> real" where
  \<comment> \<open>The result of a float operation whose exact value is \<open>x\<close>: the nearest number
      with a 53-bit significand (IEEE 754 binary64, round to nearest, ties to even). The
      exponent range is not bounded: overflow and subnormal numbers are not modelled.\<close>
  "float_round x =
     (if x = 0 then 0
      else let e = \<lfloor>log 2 \<bar>x\<bar>\<rfloor>; ulp = 2 powr (of_int e - 52) in
      of_int (round_half_even (x / ulp)) * ulp)"

definition float_03 :: real where
  \<comment> \<open>The float that the literal \<open>0.3\<close> denotes.\<close>
  "float_03 = 5404319552844595 / 2 ^ 54"

definition float_floordiv :: "real \<Rightarrow> real \<Rightarrow> error + real" where
  \<comment> \<open>\<open>x // y\<close> with a float operand: the floor of the quotient, as a float.\<close>
  "float_floordiv x y = (if y = 0 then Inl ZeroDivisionError else Inr (of_int \<lfloor>x / y\<rfloor>))"

definition atan2 :: "real \<Rightarrow> real \<Rightarrow> real" where
  \<comment> \<open>\<open>math.atan2(y, x)\<close>: the angle of the point \<open>(x, y)\<close>, with \<open>atan2(0, 0) = 0\<close>.\<close>
  "atan2 y x =
     (if 0 < x then arctan (y / x)
      else if x < 0 then (if 0 \<le> y then arctan (y / x) + pi else arctan (y / x) - pi)
      else if 0 < y then pi / 2
      else if y < 0 then - (pi / 2)
      else 0)"

definition linspace :: "real \<Rightarrow> real \<Rightarrow> int \<Rightarrow> error + real list" where
  \<comment> \<open>\<open>numpy.linspace(start, stop, num)\<close> with the default \<open>endpoint=True\<close>: a negative
      \<open>num\<close> raises \<open>ValueError\<close>, \<open>num = 0\<close> gives the empty array, \<open>num = 1\<close> gives
      \<open>[start]\<close>, and otherwise sample \<open>i\<close> is \<open>start + i * step\<close> with
      \<open>step = (stop - start) / (num - 1)\<close>.\<close>
  "linspace start stop num =
     (if num < 0 then Inl (ValueError ''Number of samples must be non-negative'')
      else if num = 0 then Inr []
      else if num = 1 then Inr [start]
      else let step = (stop - start) / real_of_int (num - 1)
           in Inr (map (\<lambda>i. start + real i * step) [0..<nat num]))"

subsection \<open>Radius clamping and angle unwrapping\<close>

definition normalize_rho :: "real \<Rightarrow> real \<Rightarrow> real" where
  \<comment> \<open>\<open>_normalize_rho(rho, max_rho)\<close>: \<open>max(0.0, min(max_rho, rho))\<close>.\<close>
  "normalize_rho rho max_rho = max 0 (min max_rho rho)"

text \<open>
  The two \<open>while\<close> loops that every Cartesian generator runs on a fresh angle:
  \<^verbatim>\<open>
  while theta - prev_theta > math.pi:
      theta -= 2 * math.pi
  while theta - prev_theta < -math.pi:
      theta += 2 * math.pi
  \<close>
\<close>

function unwrap_down :: "real \<Rightarrow> real \<Rightarrow> real" where
  "unwrap_down prev_theta theta =
     (if theta - prev_theta > pi then unwrap_down prev_theta (theta - 2 * pi) else theta)"
  by pat_completeness auto
termination
proof (relation "measure (\<lambda>(prev_theta, theta). nat \<lceil>(theta - prev_theta) / (2 * pi)\<rceil>)")
  show "wf (measure (\<lambda>(prev_theta, theta). nat \<lceil>(theta - prev_theta) / (2 * pi)\<rceil>))"
    by simp
next
  fix prev_theta theta :: real
  assume gt: "pi < theta - prev_theta"
  have eq: "(theta - 2 * pi - prev_theta) / (2 * pi) = (theta - prev_theta) / (2 * pi) - 1"
    by (simp add: field_simps)
  have "0 < theta - prev_theta"
    using gt pi_gt_zero by linarith
  then have "0 < (theta - prev_theta) / (2 * pi)"
    using pi_gt_zero by simp
  then have "0 < \<lceil>(theta - prev_theta) / (2 * pi)\<rceil>"
    by simp
  then have "nat \<lceil>(theta - prev_theta) / (2 * pi) - 1\<rceil> < nat \<lceil>(theta - prev_theta) / (2 * pi)\<rceil>"
    by simp
  then show "((prev_theta, theta - 2 * pi), (prev_theta, theta))
      \<in> measure (\<lambda>(prev_theta, theta). nat \<lceil>(theta - prev_theta) / (2 * pi)\<rceil>)"
    by (simp add: eq)
qed

function unwrap_up :: "real \<Rightarrow> real \<Rightarrow> real" where
  "unwrap_up prev_theta theta =
     (if theta - prev_theta < - pi then unwrap_up prev_theta (theta + 2 * pi) else theta)"
  by pat_completeness auto
termination
proof (relation "measure (\<lambda>(prev_theta, theta). nat \<lceil>(prev_theta - theta) / (2 * pi)\<rceil>)")
  show "wf (measure (\<lambda>(prev_theta, theta). nat \<lceil>(prev_theta - theta) / (2 * pi)\<rceil>))"
    by simp
next
  fix prev_theta theta :: real
  assume lt: "theta - prev_theta < - pi"
  have eq: "(prev_theta - (theta + 2 * pi)) / (2 * pi) = (prev_theta - theta) / (2 * pi) - 1"
    by (simp add: field_simps)
  have "0 < prev_theta - theta"
    using lt pi_gt_zero by linarith
  then have "0 < (prev_theta - theta) / (2 * pi)"
    using pi_gt_zero by simp
  then have "0 < \<lceil>(prev_theta - theta) / (2 * pi)\<rceil>"
    by simp
  then have "nat \<lceil>(prev_theta - theta) / (2 * pi) - 1\<rceil> < nat \<lceil>(prev_theta - theta) / (2 * pi)\<rceil>"
    by simp
  then show "((prev_theta, theta + 2 * pi), (prev_theta, theta))
      \<in> measure (\<lambda>(prev_theta, theta). nat \<lceil>(prev_theta - theta) / (2 * pi)\<rceil>)"
    by (simp add: eq)
qed

declare unwrap_down.simps [simp del]
declare unwrap_up.simps [simp del]

definition unwrap_theta :: "real \<Rightarrow> real \<Rightarrow> real" where
  "unwrap_theta prev_theta theta = unwrap_up prev_theta (unwrap_down prev_theta theta)"

subsection \<open>Sampling ranges\<close>

text \<open>
  The first lines of each generator compute the end \<open>t_max\<close> of the sampling range.
  \<open>math.gcd\<close> is the non-negative greatest common divisor, \<open>//\<close> on two integers is
  floor division (\<open>div\<close>), and \<open>lcm / (r * 1000)\<close> is a float division by the
  product \<open>r * 1000\<close> itself, not by its truncation. Each product \<open>x * 1000\<close> is a
  float product, rounded by \<open>float_round\<close>.
\<close>

definition hypotrochoid_t_max :: "real \<Rightarrow> real \<Rightarrow> error + real" where
  "hypotrochoid_t_max R r =
     (let gcd_v = gcd (py_int (float_round (R * 1000))) (py_int (float_round (r * 1000))) in
      if gcd_v = 0 then Inl ZeroDivisionError
      else let lcm_v =
                 (py_int (float_round (R * 1000)) * py_int (float_round (r * 1000))) div gcd_v in
      if float_round (r * 1000) = 0 then Inl ZeroDivisionError
      else let num_rotations = real_of_int lcm_v / float_round (r * 1000) in
      Inr (2 * pi * num_rotations))"

definition epitrochoid_t_max :: "real \<Rightarrow> real \<Rightarrow> error + real" where
  "epitrochoid_t_max R r =
     (let gcd_v = gcd (py_int (float_round (R * 1000))) (py_int (float_round (r * 1000))) in
      if gcd_v = 0 then Inl ZeroDivisionError
      else let lcm_v =
                 (py_int (float_round (R * 1000)) * py_int (float_round (r * 1000))) div gcd_v in
      if float_round (r * 1000) = 0 then Inl ZeroDivisionError
      else let num_rotations = real_of_int lcm_v / float_round (r * 1000) in
      Inr (2 * pi * num_rotations))"

definition rose_t_max :: "int \<Rightarrow> int \<Rightarrow> error + real" where
  \<comment> \<open>\<open>2 * math.pi * d // gcd\<close> parses as \<open>((2 * math.pi) * d) // gcd\<close>: a floor
      division of a float.\<close>
  "rose_t_max n d =
     (let gcd_v = gcd n d in
      if d mod 2 = 0 \<or> n mod 2 = 0
      then float_floordiv (2 * pi * real_of_int d) (real_of_int gcd_v)
      else float_floordiv (pi * real_of_int d) (real_of_int gcd_v))"

definition lissajous_period :: "real \<Rightarrow> real \<Rightarrow> error + real" where
  "lissajous_period a b =
     (let gcd_v = gcd (py_int (float_round (a * 1000))) (py_int (float_round (b * 1000))) in
      if gcd_v = 0 then Inl ZeroDivisionError
      else let lcm_v =
                 (py_int (float_round (a * 1000)) * py_int (float_round (b * 1000))) div gcd_v in
      Inr (2 * pi * real_of_int lcm_v / 1000))"

subsection \<open>The sampling loops\<close>

text \<open>
  Each loop body evaluates the curve at \<open>t\<close>, converts to polar form, unwraps the angle
  against \<open>prev_theta\<close>, scales and clamps the radius and appends the pair. The
  argument \<open>prev_theta\<close> is the loop's local variable; the generators start it at \<open>0\<close>.
\<close>

fun hypotrochoid_loop ::
  "real \<Rightarrow> real \<Rightarrow> real \<Rightarrow> real \<Rightarrow> real \<Rightarrow> real \<Rightarrow> real list \<Rightarrow> error + coordinates" where
  "hypotrochoid_loop R r d scale center_offset prev_theta [] = Inr []"
| "hypotrochoid_loop R r d scale center_offset prev_theta (t # t_values) =
     (if r = 0 then Inl ZeroDivisionError
      else let x = (R - r) * cos t + d * cos ((R - r) / r * t);
               y = (R - r) * sin t - d * sin ((R - r) / r * t);
               rho = sqrt (x * x + y * y);
               theta = unwrap_theta prev_theta (atan2 y x);
               max_possible_rho = R + d in
      if max_possible_rho = 0 then Inl ZeroDivisionError
      else let rho_normalized =
                 normalize_rho ((rho / max_possible_rho) * scale + center_offset) 1 in
      (case hypotrochoid_loop R r d scale center_offset theta t_values of
         Inl e \<Rightarrow> Inl e
       | Inr coordinates \<Rightarrow> Inr ((theta, rho_normalized) # coordinates)))"

fun epitrochoid_loop ::
  "real \<Rightarrow> real \<Rightarrow> real \<Rightarrow> real \<Rightarrow> real \<Rightarrow> real \<Rightarrow> real list \<Rightarrow> error + coordinates" where
  "epitrochoid_loop R r d scale center_offset prev_theta [] = Inr []"
| "epitrochoid_loop R r d scale center_offset prev_theta (t # t_values) =
     (if r = 0 then Inl ZeroDivisionError
      else let x = (R + r) * cos t - d * cos ((R + r) / r * t);
               y = (R + r) * sin t - d * sin ((R + r) / r * t);
               rho = sqrt (x * x + y * y);
               theta = unwrap_theta prev_theta (atan2 y x);
               max_possible_rho = R + r + d in
      if max_possible_rho = 0 then Inl ZeroDivisionError
      else let rho_normalized =
                 normalize_rho ((rho / max_possible_rho) * scale + center_offset) 1 in
      (case epitrochoid_loop R r d scale center_offset theta t_values of
         Inl e \<Rightarrow> Inl e
       | Inr coordinates \<Rightarrow> Inr ((theta, rho_normalized) # coordinates)))"

fun rose_loop :: "int \<Rightarrow> int \<Rightarrow> real \<Rightarrow> real \<Rightarrow> real list \<Rightarrow> error + coordinates" where
  "rose_loop n d scale center_offset [] = Inr []"
| "rose_loop n d scale center_offset (t # t_values) =
     (if d = 0 then Inl ZeroDivisionError
      else let k = real_of_int n / real_of_int d;
               rho_raw = \<bar>cos (k * t)\<bar>;
               rho_normalized = normalize_rho (rho_raw * scale + center_offset) 1 in
      (case rose_loop n d scale center_offset t_values of
         Inl e \<Rightarrow> Inl e
       | Inr coordinates \<Rightarrow> Inr ((t, rho_normalized) # coordinates)))"

fun lissajous_loop ::
  "real \<Rightarrow> real \<Rightarrow> real \<Rightarrow> real \<Rightarrow> real \<Rightarrow> real \<Rightarrow> real list \<Rightarrow> coordinates" where
  "lissajous_loop a b delta scale center_offset prev_theta [] = []"
| "lissajous_loop a b delta scale center_offset prev_theta (t # t_values) =
     (let x = sin (a * t + delta);
          y = sin (b * t);
          rho = sqrt (x * x + y * y);
          theta = unwrap_theta prev_theta (atan2 y x);
          rho_normalized = normalize_rho ((rho / sqrt 2) * scale + center_offset) 1 in
      (theta, rho_normalized) # lissajous_loop a b delta scale center_offset theta t_values)"

fun custom_loop :: "real \<Rightarrow> real \<Rightarrow> real \<Rightarrow> real \<Rightarrow> (real \<times> real) list \<Rightarrow> error + coordinates" where
  "custom_loop max_r scale center_offset prev_theta [] = Inr []"
| "custom_loop max_r scale center_offset prev_theta ((x, y) # cartesian_coords) =
     (let rho = sqrt (x * x + y * y);
          theta = unwrap_theta prev_theta (atan2 y x) in
      if max_r = 0 then Inl ZeroDivisionError
      else let rho_normalized = normalize_rho ((rho / max_r) * scale + center_offset) 1 in
      (case custom_loop max_r scale center_offset theta cartesian_coords of
         Inl e \<Rightarrow> Inl e
       | Inr coordinates \<Rightarrow> Inr ((theta, rho_normalized) # coordinates)))"

definition custom_max_r :: "bool \<Rightarrow> (real \<times> real) list \<Rightarrow> error + real" where
  \<comment> \<open>\<open>max_r = 1.0\<close>, replaced under \<open>auto_scale\<close> by the largest radius, itself replaced
      by \<open>1.0\<close> when it is \<open>0\<close>. Python's \<open>max\<close> of an empty sequence raises
      \<open>ValueError\<close>.\<close>
  "custom_max_r auto_scale cartesian_coords =
     (if auto_scale
      then (case map (\<lambda>(x, y). sqrt (x * x + y * y)) cartesian_coords of
              [] \<Rightarrow> Inl (ValueError ''max() arg is an empty sequence'')
            | v # vs \<Rightarrow> let max_r = foldl max v vs in Inr (if max_r = 0 then 1 else max_r))
      else Inr 1)"

subsection \<open>The generators\<close>

definition generate_hypotrochoid ::
  "real \<Rightarrow> real \<Rightarrow> real \<Rightarrow> int \<Rightarrow> real \<Rightarrow> real \<Rightarrow> error + coordinates" where
  "generate_hypotrochoid R r d num_points scale center_offset =
     (case hypotrochoid_t_max R r of
        Inl e \<Rightarrow> Inl e
      | Inr t_max \<Rightarrow>
          (case linspace 0 t_max num_points of
             Inl e \<Rightarrow> Inl e
           | Inr t_values \<Rightarrow> hypotrochoid_loop R r d scale center_offset 0 t_values))"

definition generate_epitrochoid ::
  "real \<Rightarrow> real \<Rightarrow> real \<Rightarrow> int \<Rightarrow> real \<Rightarrow> real \<Rightarrow> error + coordinates" where
  "generate_epitrochoid R r d num_points scale center_offset =
     (case epitrochoid_t_max R r of
        Inl e \<Rightarrow> Inl e
      | Inr t_max \<Rightarrow>
          (case linspace 0 t_max num_points of
             Inl e \<Rightarrow> Inl e
           | Inr t_values \<Rightarrow> epitrochoid_loop R r d scale center_offset 0 t_values))"

definition generate_rose :: "int \<Rightarrow> int \<Rightarrow> int \<Rightarrow> real \<Rightarrow> real \<Rightarrow> error + coordinates" where
  "generate_rose n d num_points scale center_offset =
     (case rose_t_max n d of
        Inl e \<Rightarrow> Inl e
      | Inr t_max \<Rightarrow>
          (case linspace 0 t_max num_points of
             Inl e \<Rightarrow> Inl e
           | Inr t_values \<Rightarrow> rose_loop n d scale center_offset t_values))"

definition generate_lissajous ::
  "real \<Rightarrow> real \<Rightarrow> real \<Rightarrow> int \<Rightarrow> real \<Rightarrow> real \<Rightarrow> error + coordinates" where
  "generate_lissajous a b delta num_points scale center_offset =
     (case lissajous_period a b of
        Inl e \<Rightarrow> Inl e
      | Inr period \<Rightarrow>
          (case linspace 0 period num_points of
             Inl e \<Rightarrow> Inl e
           | Inr t_values \<Rightarrow> Inr (lissajous_loop a b delta scale center_offset 0 t_values)))"

definition generate_custom_parametric ::
  "(real \<Rightarrow> real) \<Rightarrow> (real \<Rightarrow> real) \<Rightarrow> real \<Rightarrow> real \<Rightarrow> int \<Rightarrow> real \<Rightarrow> real \<Rightarrow> bool
     \<Rightarrow> error + coordinates" where
  "generate_custom_parametric x_func y_func t_start t_end num_points scale center_offset auto_scale =
     (case linspace t_start t_end num_points of
        Inl e \<Rightarrow> Inl e
      | Inr t_values \<Rightarrow>
          (let cartesian_coords = map (\<lambda>t. (x_func t, y_func t)) t_values in
           case custom_max_r auto_scale cartesian_coords of
             Inl e \<Rightarrow> Inl e
           | Inr max_r \<Rightarrow> custom_loop max_r scale center_offset 0 cartesian_coords))"

text \<open>
  One call of a generator method with its arguments (defaults already filled in). It is
  used to state properties of every generator at once, and as the model of the
  \<open>**kwargs\<close> that \<open>generate_and_save\<close> forwards.
\<close>

datatype call =
    Hypotrochoid real real real int real real
  | Epitrochoid real real real int real real
  | Rose int int int real real
  | Lissajous real real real int real real
  | CustomParametric "real \<Rightarrow> real" "real \<Rightarrow> real" real real int real real bool

fun run :: "call \<Rightarrow> error + coordinates" where
  "run (Hypotrochoid R r d num_points scale center_offset) =
     generate_hypotrochoid R r d num_points scale center_offset"
| "run (Epitrochoid R r d num_points scale center_offset) =
     generate_epitrochoid R r d num_points scale center_offset"
| "run (Rose n d num_points scale center_offset) =
     generate_rose n d num_points scale center_offset"
| "run (Lissajous a b delta num_points scale center_offset) =
     generate_lissajous a b delta num_points scale center_offset"
| "run (CustomParametric x_func y_func t_start t_end num_points scale center_offset auto_scale) =
     generate_custom_parametric x_func y_func t_start t_end num_points scale center_offset
       auto_scale"

fun num_points_of :: "call \<Rightarrow> int" where
  "num_points_of (Hypotrochoid R r d num_points scale center_offset) = num_points"
| "num_points_of (Epitrochoid R r d num_points scale center_offset) = num_points"
| "num_points_of (Rose n d num_points scale center_offset) = num_points"
| "num_points_of (Lissajous a b delta num_points scale center_offset) = num_points"
| "num_points_of (CustomParametric x_func y_func t_start t_end num_points scale center_offset
     auto_scale) = num_points"

fun unwraps_theta :: "call \<Rightarrow> bool" where
  \<comment> \<open>The generators whose loop unwraps the angle; the rose emits \<open>t\<close> itself.\<close>
  "unwraps_theta (Rose n d num_points scale center_offset) = False"
| "unwraps_theta c = True"

fun with_scale :: "real \<Rightarrow> real \<Rightarrow> call \<Rightarrow> call" where
  \<comment> \<open>The same call with other values of \<open>scale\<close> and \<open>center_offset\<close>.\<close>
  "with_scale s c (Hypotrochoid R r d num_points scale center_offset) =
     Hypotrochoid R r d num_points s c"
| "with_scale s c (Epitrochoid R r d num_points scale center_offset) =
     Epitrochoid R r d num_points s c"
| "with_scale s c (Rose n d num_points scale center_offset) = Rose n d num_points s c"
| "with_scale s c (Lissajous a b delta num_points scale center_offset) =
     Lissajous a b delta num_points s c"
| "with_scale s c (CustomParametric x_func y_func t_start t_end num_points scale center_offset
     auto_scale) = CustomParametric x_func y_func t_start t_end num_points s c auto_scale"

definition rescaled :: "real \<Rightarrow> real \<Rightarrow> coordinates \<Rightarrow> real list \<Rightarrow> coordinates" where
  \<comment> \<open>The angles of \<open>cs\<close>, each with the clamped radius \<open>raw * s + c\<close> of its raw
      value.\<close>
  "rescaled s c cs raws = map2 (\<lambda>p raw. (fst p, normalize_rho (raw * s + c) 1)) cs raws"

text \<open>
  The radius of each sample before \<open>scale\<close> and \<open>center_offset\<close> are applied: the
  expressions \<open>rho / max_possible_rho\<close>, \<open>rho_raw\<close>, \<open>rho / math.sqrt(2)\<close> and
  \<open>rho / max_r\<close> of the five loop bodies, for the sample values \<open>t_values\<close>.
\<close>

fun raw_radii :: "call \<Rightarrow> real list \<Rightarrow> real list" where
  "raw_radii (Hypotrochoid R r d num_points scale center_offset) t_values =
     map (\<lambda>t. let x = (R - r) * cos t + d * cos ((R - r) / r * t);
                   y = (R - r) * sin t - d * sin ((R - r) / r * t)
               in sqrt (x * x + y * y) / (R + d)) t_values"
| "raw_radii (Epitrochoid R r d num_points scale center_offset) t_values =
     map (\<lambda>t. let x = (R + r) * cos t - d * cos ((R + r) / r * t);
                   y = (R + r) * sin t - d * sin ((R + r) / r * t)
               in sqrt (x * x + y * y) / (R + r + d)) t_values"
| "raw_radii (Rose n d num_points scale center_offset) t_values =
     map (\<lambda>t. \<bar>cos (real_of_int n / real_of_int d * t)\<bar>) t_values"
| "raw_radii (Lissajous a b delta num_points scale center_offset) t_values =
     map (\<lambda>t. let x = sin (a * t + delta); y = sin (b * t)
               in sqrt (x * x + y * y) / sqrt 2) t_values"
| "raw_radii (CustomParametric x_func y_func t_start t_end num_points scale center_offset
     auto_scale) t_values =
     (let cartesian_coords = map (\<lambda>t. (x_func t, y_func t)) t_values;
          max_r = (case custom_max_r auto_scale cartesian_coords of Inr m \<Rightarrow> m | Inl e \<Rightarrow> 1)
      in map (\<lambda>(x, y). sqrt (x * x + y * y) / max_r) cartesian_coords)"

subsection \<open>Saving and dispatch\<close>

text \<open>
  \<open>SpirographType\<close> is a \<open>str\<close>-valued \<open>Enum\<close>: its members compare equal to their
  string values, and \<open>generate_and_save\<close> receives whatever tag the caller passes. The
  file system is a map from paths to contents together with the set of paths that can
  be opened for writing; \<open>fmt\<close> stands for the \<open>.5f\<close> float formatting.
\<close>

definition HYPOTROCHOID :: string where "HYPOTROCHOID = ''hypotrochoid''"
definition EPITROCHOID :: string where "EPITROCHOID = ''epitrochoid''"
definition ROSE :: string where "ROSE = ''rose''"
definition LISSAJOUS :: string where "LISSAJOUS = ''lissajous''"

record generator =
  output_dir :: string

record filesystem =
  contents :: "string \<Rightarrow> string option"
  writable :: "string \<Rightarrow> bool"

definition endswith :: "string \<Rightarrow> string \<Rightarrow> bool" where
  "endswith s suffix_v = (length suffix_v \<le> length s \<and> drop (length s - length suffix_v) s = suffix_v)"

definition path_join :: "string \<Rightarrow> string \<Rightarrow> string" where
  \<comment> \<open>\<open>os.path.join(a, b)\<close> on POSIX.\<close>
  "path_join a b =
     (if b \<noteq> [] \<and> hd b = CHR ''/'' then b
      else if a = [] \<or> last a = CHR ''/'' then a @ b
      else a @ ''/'' @ b)"

definition thr_line :: "(real \<Rightarrow> string) \<Rightarrow> real \<times> real \<Rightarrow> string" where
  "thr_line fmt c = fmt (fst c) @ '' '' @ fmt (snd c) @ [CHR 0x0A]"

definition save_to_thr ::
  "generator \<Rightarrow> (real \<Rightarrow> string) \<Rightarrow> coordinates \<Rightarrow> string \<Rightarrow> filesystem
     \<Rightarrow> (error + string) \<times> filesystem" where
  "save_to_thr self fmt coordinates filename fs =
     (let filename' = (if \<not> endswith filename ''.thr'' then filename @ ''.thr'' else filename);
          filepath = path_join (output_dir self) filename' in
      if writable fs filepath
      then (Inr filepath,
            fs\<lparr>contents := (contents fs)(filepath \<mapsto> concat (map (thr_line fmt) coordinates))\<rparr>)
      else (Inl OSError, fs))"

definition save_generated ::
  "generator \<Rightarrow> (real \<Rightarrow> string) \<Rightarrow> string \<Rightarrow> filesystem \<Rightarrow> error + coordinates
     \<Rightarrow> (error + string) \<times> filesystem" where
  \<comment> \<open>\<open>return self.save_to_thr(coordinates, filename)\<close>, reached only when the selected
      generator has returned.\<close>
  "save_generated self fmt filename fs generated =
     (case generated of
        Inl e \<Rightarrow> (Inl e, fs)
      | Inr coordinates \<Rightarrow> save_to_thr self fmt coordinates filename fs)"

definition generate_and_save ::
  "generator \<Rightarrow> (real \<Rightarrow> string) \<Rightarrow> string \<Rightarrow> string \<Rightarrow> call \<Rightarrow> filesystem
     \<Rightarrow> (error + string) \<times> filesystem" where
  \<comment> \<open>Keyword arguments that are not those of the selected generator make the call
      raise \<open>TypeError\<close>.\<close>
  "generate_and_save self fmt pattern_type filename kwargs fs =
     (if pattern_type = HYPOTROCHOID
      then save_generated self fmt filename fs
             (case kwargs of
                Hypotrochoid R r d n s c \<Rightarrow> generate_hypotrochoid R r d n s c
              | _ \<Rightarrow> Inl TypeError)
      else if pattern_type = EPITROCHOID
      then save_generated self fmt filename fs
             (case kwargs of
                Epitrochoid R r d n s c \<Rightarrow> generate_epitrochoid R r d n s c
              | _ \<Rightarrow> Inl TypeError)
      else if pattern_type = ROSE
      then save_generated self fmt filename fs
             (case kwargs of
                Rose n d np s c \<Rightarrow> generate_rose n d np s c
              | _ \<Rightarrow> Inl TypeError)
      else if pattern_type = LISSAJOUS
      then save_generated self fmt filename fs
             (case kwargs of
                Lissajous a b delta n s c \<Rightarrow> generate_lissajous a b delta n s c
              | _ \<Rightarrow> Inl TypeError)
      else (Inl (ValueError (''Unknown pattern type: '' @ pattern_type)), fs))"

subsection \<open>Properties of coordinate sequences\<close>

definition jump_ok :: "real \<Rightarrow> real \<Rightarrow> bool" where
  \<comment> \<open>Two consecutive angles differ by at most \<open>pi\<close>.\<close>
  "jump_ok a b = (\<bar>b - a\<bar> \<le> pi)"

definition rho_ok :: "real \<times> real \<Rightarrow> bool" where
  \<comment> \<open>The radius of a coordinate lies in the unit interval.\<close>
  "rho_ok c = (0 \<le> snd c \<and> snd c \<le> 1)"

section \<open>Basic facts\<close>

subsection \<open>Float rounding\<close>

lemma round_half_even_of_int: "round_half_even (of_int z) = z"
  by (simp add: round_half_even_def)

lemma round_half_even_cases:
  "round_half_even y = \<lfloor>y\<rfloor> \<or> round_half_even y = \<lfloor>y\<rfloor> + 1"
  by (simp add: round_half_even_def Let_def)

lemma round_half_even_nonzero:
  assumes "1 \<le> \<bar>y\<bar>"
  shows "round_half_even y \<noteq> 0"
proof (cases "0 \<le> y")
  case True
  define f where "f = \<lfloor>y\<rfloor>"
  have "1 \<le> f" using True assms by (simp add: f_def le_floor_iff)
  moreover have "round_half_even y = f \<or> round_half_even y = f + 1"
    unfolding f_def by (rule round_half_even_cases)
  ultimately show ?thesis by auto
next
  case False
  then have y: "y \<le> - 1" using assms by simp
  define f where "f = \<lfloor>y\<rfloor>"
  have f: "f \<le> - 1" using y by (simp add: f_def floor_le_iff)
  show ?thesis
  proof (cases "f = - 1")
    case True
    then have "- 1 \<le> y" using of_int_floor_le [of y] by (simp add: f_def)
    with y have "y = of_int (- 1)" by simp
    then have "round_half_even y = - 1" by (simp only: round_half_even_of_int)
    then show ?thesis by simp
  next
    case False
    with f have "f + 1 < 0" by simp
    moreover have "round_half_even y = f \<or> round_half_even y = f + 1"
      unfolding f_def by (rule round_half_even_cases)
    ultimately show ?thesis by auto
  qed
qed

lemma powr_floor_log_le:
  assumes "x \<noteq> 0"
  shows "2 powr (of_int \<lfloor>log 2 \<bar>x\<bar>\<rfloor>) \<le> \<bar>x\<bar>"
proof -
  have "2 powr (of_int \<lfloor>log 2 \<bar>x\<bar>\<rfloor>) \<le> 2 powr (log 2 \<bar>x\<bar>)"
    by (simp only: powr_le_cancel_iff [of 2] one_less_numeral_iff semiring_norm of_int_floor_le)
  then show ?thesis using assms by simp
qed

lemma float_round_zero: "float_round 0 = 0"
  by (simp add: float_round_def)

lemma float_round_nonzero:
  assumes "x \<noteq> 0"
  shows "float_round x \<noteq> 0"
proof -
  define e where "e = \<lfloor>log 2 \<bar>x\<bar>\<rfloor>"
  define ulp :: real where "ulp = 2 powr (of_int e - 52)"
  have ulp: "0 < ulp" by (simp add: ulp_def)
  have "2 powr (of_int e) \<le> \<bar>x\<bar>"
    unfolding e_def by (rule powr_floor_log_le [OF assms])
  moreover have "2 powr (of_int e) = 2 powr 52 * ulp"
    by (simp add: ulp_def powr_diff)
  ultimately have "2 powr 52 * ulp \<le> \<bar>x\<bar>" by simp
  then have "2 powr 52 \<le> \<bar>x\<bar> / ulp"
    using ulp by (simp add: pos_le_divide_eq)
  moreover have "(1::real) \<le> 2 powr 52"
    by simp
  ultimately have "1 \<le> \<bar>x\<bar> / ulp"
    by (rule order_trans [rotated])
  then have "1 \<le> \<bar>x / ulp\<bar>"
    using ulp by (simp add: abs_divide)
  then have "round_half_even (x / ulp) \<noteq> 0"
    by (rule round_half_even_nonzero)
  then show ?thesis
    using assms ulp by (simp add: float_round_def Let_def e_def [symmetric] ulp_def [symmetric])
qed

lemma float_round_eq_0_iff: "float_round x = 0 \<longleftrightarrow> x = 0"
  using float_round_nonzero float_round_zero by blast


lemma float_round_exact:
  assumes m: "m \<noteq> 0" "\<bar>m\<bar> < 2 ^ 53" and x: "x = of_int m * 2 powr (of_int k)"
  shows "float_round x = x"
proof -
  define e where "e = \<lfloor>log 2 \<bar>x\<bar>\<rfloor>"
  define ulp :: real where "ulp = 2 powr (of_int e - 52)"
  have ulp: "0 < ulp" by (simp add: ulp_def)
  have nz: "x \<noteq> 0" using m x by simp
  have "\<bar>x\<bar> = of_int \<bar>m\<bar> * 2 powr (of_int k)"
    by (simp add: x abs_mult)
  moreover have "real_of_int \<bar>m\<bar> < 2 ^ 53"
    using m(2) by (metis of_int_less_numeral_power_cancel_iff)
  ultimately have "\<bar>x\<bar> < 2 ^ 53 * 2 powr (of_int k)"
    by simp
  also have "\<dots> = 2 powr (53 + of_int k)"
    by (simp add: powr_add)
  finally have up: "\<bar>x\<bar> < 2 powr (53 + of_int k)" .
  have low: "2 powr (of_int e) \<le> \<bar>x\<bar>"
    unfolding e_def by (rule powr_floor_log_le [OF nz])
  have "2 powr (of_int e) < (2::real) powr (53 + of_int k)"
    using low up by (rule le_less_trans)
  then have "real_of_int e < 53 + real_of_int k"
    by simp
  then have "e < 53 + k"
    by linarith
  then have j: "0 \<le> k - e + 52"
    by simp
  define j where "j = nat (k - e + 52)"
  have "x / ulp = of_int m * 2 powr (of_int k - (of_int e - 52))"
    by (simp add: x ulp_def powr_diff)
  also have "of_int k - (of_int e - 52) = real j"
    using j by (simp add: j_def)
  also have "of_int m * 2 powr (real j) = of_int (m * 2 ^ j)"
    by (simp add: powr_realpow)
  finally have "x / ulp = of_int (m * 2 ^ j)" .
  then have "round_half_even (x / ulp) = m * 2 ^ j"
    by (simp only: round_half_even_of_int)
  then have "of_int (round_half_even (x / ulp)) * ulp = x / ulp * ulp"
    using \<open>x / ulp = of_int (m * 2 ^ j)\<close> by simp
  then show ?thesis
    using nz ulp by (simp add: float_round_def Let_def e_def [symmetric] ulp_def [symmetric])
qed

lemma float_round_of_int:
  "\<bar>m\<bar> < 2 ^ 53 \<Longrightarrow> float_round (of_int m) = of_int m"
  using float_round_exact [of m "of_int m" 0] by (cases "m = 0") (simp_all add: float_round_zero)

lemma float_round_values:
  "float_round 1000 = 1000" "float_round 250 = 250" "float_round 3000 = 3000"
  "float_round 4000 = 4000" "float_round (1 / 2) = 1 / 2"
  using float_round_of_int [of 1000] float_round_of_int [of 250] float_round_of_int [of 3000]
    float_round_of_int [of 4000] float_round_exact [of 1 "1 / 2" "- 1"]
  by (simp_all add: powr_minus)

lemma float_round_eval:
  assumes "0 < x" and "2 powr (of_int e) \<le> x" and "x < 2 powr (of_int e + 1)"
    and "round_half_even (x / 2 powr (of_int e - 52)) = n"
  shows "float_round x = of_int n * 2 powr (of_int e - 52)"
proof -
  have "\<lfloor>log 2 \<bar>x\<bar>\<rfloor> = e"
    using assms(1-3) by (simp add: floor_log_eq_powr_iff)
  then show ?thesis
    using assms(1,4) by (simp add: float_round_def Let_def)
qed

text \<open>
  The product of the float nearest to 0.3 with 1000: the exact product truncates to 299,
  the float product to 300.
\<close>

lemma float_round_03: "float_round (float_03 * 1000) = 300"
proof -
  define x :: real where "x = float_03 * 1000"
  have xv: "x = 675539944105574375 / 2 ^ 51"
    by (simp add: x_def float_03_def)
  have pos: "0 < x" by (simp add: xv)
  have lo: "2 powr (of_int 8) \<le> x"
    by (simp add: xv)
  have hi: "x < 2 powr (of_int 8 + 1)"
    by (simp add: xv)
  have u: "(2::real) powr (of_int 8 - 52) = 1 / 2 ^ 44"
    by (simp add: powr_minus divide_simps)
  have y: "x / (1 / 2 ^ 44) = 675539944105574375 / 128"
    by (simp add: xv)
  have fl: "\<lfloor>675539944105574375 / 128 :: real\<rfloor> = 5277655813324799"
    by simp
  have r: "round_half_even (x / 2 powr (of_int 8 - 52)) = 5277655813324800"
    unfolding u y by (simp add: round_half_even_def Let_def fl)
  have "float_round x = of_int 5277655813324800 * 2 powr (of_int 8 - 52)"
    by (rule float_round_eval [OF pos lo hi r])
  also have "\<dots> = 300"
    unfolding u by simp
  finally show ?thesis
    by (simp only: x_def)
qed

lemma py_int_03:
  "py_int (float_round (float_03 * 1000)) = 300" "py_int (float_03 * 1000) = 299"
  by (simp_all add: float_round_03 py_int_def) (simp add: float_03_def)

subsection \<open>A lower bound for pi\<close>

text \<open>
  From \<open>sin x \<le> x\<close> at \<open>x = pi / 12\<close>, where \<open>sin\<^sup>2 (pi / 12) = (1 - sqrt 3 / 2) / 2\<close>
  by the double-angle formula.
\<close>

lemma pi_gt_3: "3 < pi"
proof -
  define q where "q = sin (pi / 12) * sin (pi / 12)"
  define w where "w = sqrt 3"
  define p2 where "p2 = pi * pi"
  have s: "sin (pi / 12) \<le> pi / 12"
    using pi_gt_zero by (intro sin_x_le_x) simp
  have s0: "0 \<le> sin (pi / 12)"
    using pi_gt_zero by (intro sin_ge_zero) simp_all
  have "cos (2 * (pi / 12)) = 1 - 2 * (sin (pi / 12))\<^sup>2"
    by (rule cos_double_sin)
  then have "w / 2 = 1 - 2 * q"
    using cos_30 by (simp add: q_def w_def power2_eq_square)
  then have sq: "q = (1 - w / 2) / 2"
    by argo
  have "w * w = 3"
    by (simp add: w_def)
  then have "w\<^sup>2 < (7 / 4)\<^sup>2"
    by (simp add: power2_eq_square)
  then have r3: "w < 7 / 4"
    by (rule power2_less_imp_less) simp
  have "q \<le> (pi / 12) * (pi / 12)"
    unfolding q_def using s s0 by (intro mult_mono) simp_all
  then have "(1 - w / 2) / 2 \<le> p2 / 144"
    using sq by (simp add: p2_def)
  then have "9 < p2"
    using r3 by argo
  then have "3\<^sup>2 < pi\<^sup>2"
    by (simp add: p2_def power2_eq_square)
  then show ?thesis
    by (rule power2_less_imp_less) simp
qed

lemma floor_pi: "\<lfloor>pi\<rfloor> = 3"
  using pi_gt_3 pi_less_4 by (simp add: floor_eq_iff)

lemma floor_minus_pi: "\<lfloor>- pi\<rfloor> = - 4"
  using pi_gt_3 pi_less_4 by (simp add: floor_eq_iff)

subsection \<open>atan2, unwrapping and clamping\<close>

lemma atan2_bounds: "- pi < atan2 y x \<and> atan2 y x \<le> pi"
proof -
  have b: "- (pi / 2) < arctan (y / x)" "arctan (y / x) < pi / 2"
    by (rule arctan_lbound, rule arctan_ubound)
  consider "0 < x" | "x < 0" "0 \<le> y" | "x < 0" "y < 0" | "x = 0"
    by linarith
  then show ?thesis
  proof cases
    case 1
    then show ?thesis using b pi_gt_zero by (simp add: atan2_def)
  next
    case 2
    then have "y / x \<le> 0" by (simp add: divide_nonneg_neg)
    then have "arctan (y / x) \<le> 0" by (simp add: arctan_le_zero_iff)
    then show ?thesis using 2 b pi_gt_zero by (simp add: atan2_def)
  next
    case 3
    then have "0 < y / x" by (simp add: divide_neg_neg)
    then have "0 < arctan (y / x)" by (simp add: zero_less_arctan_iff)
    then show ?thesis using 3 b pi_gt_zero by (simp add: atan2_def)
  next
    case 4
    then show ?thesis using pi_gt_zero by (auto simp: atan2_def; linarith)
  qed
qed

lemma atan2_pos_axis: "0 < x \<Longrightarrow> atan2 0 x = 0"
  by (simp add: atan2_def)

lemma atan2_neg_axis: "x < 0 \<Longrightarrow> atan2 0 x = pi"
  by (simp add: atan2_def)

lemma unwrap_down_le: "unwrap_down p t - p \<le> pi"
proof (induction p t rule: unwrap_down.induct)
  case (1 p t)
  then show ?case by (simp add: unwrap_down.simps [of p t])
qed

lemma unwrap_down_id: "t - p \<le> pi \<Longrightarrow> unwrap_down p t = t"
  by (simp add: unwrap_down.simps [of p t])

lemma unwrap_up_ge: "- pi \<le> unwrap_up p t - p"
proof (induction p t rule: unwrap_up.induct)
  case (1 p t)
  then show ?case by (simp add: unwrap_up.simps [of p t])
qed

lemma unwrap_up_id: "- pi \<le> t - p \<Longrightarrow> unwrap_up p t = t"
  by (simp add: unwrap_up.simps [of p t])

text \<open>The second loop adds \<open>2 * pi\<close> only below \<open>- pi\<close>, so it cannot overshoot \<open>pi\<close>.\<close>

lemma unwrap_up_le: "t - p \<le> pi \<Longrightarrow> unwrap_up p t - p \<le> pi"
proof (induction p t rule: unwrap_up.induct)
  case (1 p t)
  show ?case
  proof (cases "t - p < - pi")
    case True
    then have "t + 2 * pi - p \<le> pi" by linarith
    with True "1.IH" show ?thesis by (simp add: unwrap_up.simps [of p t])
  next
    case False
    with "1.prems" show ?thesis by (simp add: unwrap_up.simps [of p t])
  qed
qed

lemma unwrap_theta_jump: "\<bar>unwrap_theta p t - p\<bar> \<le> pi"
  using unwrap_up_ge [of p "unwrap_down p t"] unwrap_up_le [OF unwrap_down_le, of p t]
  by (simp add: unwrap_theta_def abs_le_iff)

lemma unwrap_theta_id: "\<bar>t - p\<bar> \<le> pi \<Longrightarrow> unwrap_theta p t = t"
  by (simp add: unwrap_theta_def unwrap_down_id unwrap_up_id abs_le_iff)

lemma unwrap_theta_first: "unwrap_theta 0 (atan2 y x) = atan2 y x"
  using atan2_bounds [of y x] by (intro unwrap_theta_id) (simp add: abs_le_iff)

lemma unwrap_theta_values:
  "unwrap_theta 0 0 = 0" "unwrap_theta 0 pi = pi" "unwrap_theta pi 0 = 0"
  by (simp_all add: unwrap_theta_id)

lemma normalize_rho_bounds: "0 \<le> normalize_rho v 1 \<and> normalize_rho v 1 \<le> 1"
  by (simp add: normalize_rho_def)

lemma normalize_rho_saturates:
  "normalize_rho v 1 = (if v \<le> 0 then 0 else if 1 \<le> v then 1 else v)"
  by (simp add: normalize_rho_def)

subsection \<open>The sampler\<close>

lemma linspace_length: "linspace a b n = Inr ts \<Longrightarrow> length ts = nat n"
  by (auto simp: linspace_def Let_def split: if_splits)

lemma linspace_returns:
  "0 \<le> n \<Longrightarrow> \<exists>ts. linspace a b n = Inr ts \<and> length ts = nat n"
  by (simp add: linspace_def Let_def)

lemma linspace_one: "linspace start stop 1 = Inr [start]"
  by (simp add: linspace_def)

lemma linspace_many:
  "2 \<le> n \<Longrightarrow> linspace a b n =
     Inr (map (\<lambda>i. a + real i * ((b - a) / real_of_int (n - 1))) [0..<nat n])"
  by (simp add: linspace_def Let_def)

subsection \<open>Consecutive angles of the unwrapping loops\<close>

lemma hypotrochoid_loop_chain:
  "hypotrochoid_loop R r d s c prev ts = Inr cs \<Longrightarrow> successively jump_ok (prev # map fst cs)"
proof (induction ts arbitrary: prev cs)
  case Nil
  then show ?case by simp
next
  case (Cons t ts)
  then show ?case
    by (auto simp: Let_def jump_ok_def unwrap_theta_jump split: if_splits sum.splits)
qed

lemma epitrochoid_loop_chain:
  "epitrochoid_loop R r d s c prev ts = Inr cs \<Longrightarrow> successively jump_ok (prev # map fst cs)"
proof (induction ts arbitrary: prev cs)
  case Nil
  then show ?case by simp
next
  case (Cons t ts)
  then show ?case
    by (auto simp: Let_def jump_ok_def unwrap_theta_jump split: if_splits sum.splits)
qed

lemma lissajous_loop_chain:
  "successively jump_ok (prev # map fst (lissajous_loop a b delta s c prev ts))"
proof (induction ts arbitrary: prev)
  case Nil
  then show ?case by simp
next
  case (Cons t ts)
  then show ?case
    by (simp add: Let_def jump_ok_def unwrap_theta_jump)
qed

lemma custom_loop_chain:
  "custom_loop m s c prev xys = Inr cs \<Longrightarrow> successively jump_ok (prev # map fst cs)"
proof (induction xys arbitrary: prev cs)
  case Nil
  then show ?case by simp
next
  case (Cons xy xys)
  obtain x y where xy: "xy = (x, y)" by (cases xy)
  from Cons show ?case unfolding xy
    by (auto simp: Let_def jump_ok_def unwrap_theta_jump split: if_splits sum.splits)
qed

lemma run_chain:
  assumes "run p = Inr cs" and "unwraps_theta p"
  shows "successively jump_ok (0 # map fst cs)"
proof (cases p)
  case (Hypotrochoid R r d n s c)
  with assms(1) show ?thesis
    by (auto simp: generate_hypotrochoid_def split: sum.splits dest: hypotrochoid_loop_chain)
next
  case (Epitrochoid R r d n s c)
  with assms(1) show ?thesis
    by (auto simp: generate_epitrochoid_def split: sum.splits dest: epitrochoid_loop_chain)
next
  case (Rose n d np s c)
  with assms(2) show ?thesis by simp
next
  case (Lissajous a b delta n s c)
  with assms(1) show ?thesis
    by (auto simp: generate_lissajous_def lissajous_loop_chain split: sum.splits)
next
  case (CustomParametric xf yf ts te n s c auto_scale)
  with assms(1) show ?thesis
    by (auto simp: generate_custom_parametric_def Let_def split: sum.splits dest: custom_loop_chain)
qed

subsection \<open>Radii of the loops\<close>

lemma hypotrochoid_loop_rho:
  "hypotrochoid_loop R r d s c prev ts = Inr cs \<Longrightarrow> list_all rho_ok cs"
proof (induction ts arbitrary: prev cs)
  case Nil
  then show ?case by simp
next
  case (Cons t ts)
  then show ?case
    by (auto simp: Let_def rho_ok_def normalize_rho_bounds split: if_splits sum.splits)
qed

lemma epitrochoid_loop_rho:
  "epitrochoid_loop R r d s c prev ts = Inr cs \<Longrightarrow> list_all rho_ok cs"
proof (induction ts arbitrary: prev cs)
  case Nil
  then show ?case by simp
next
  case (Cons t ts)
  then show ?case
    by (auto simp: Let_def rho_ok_def normalize_rho_bounds split: if_splits sum.splits)
qed

lemma rose_loop_rho:
  "rose_loop n d s c ts = Inr cs \<Longrightarrow> list_all rho_ok cs"
proof (induction ts arbitrary: cs)
  case Nil
  then show ?case by simp
next
  case (Cons t ts)
  then show ?case
    by (auto simp: Let_def rho_ok_def normalize_rho_bounds split: if_splits sum.splits)
qed

lemma lissajous_loop_rho:
  "list_all rho_ok (lissajous_loop a b delta s c prev ts)"
proof (induction ts arbitrary: prev)
  case Nil
  then show ?case by simp
next
  case (Cons t ts)
  then show ?case
    by (simp add: Let_def rho_ok_def normalize_rho_bounds)
qed

lemma custom_loop_rho:
  "custom_loop m s c prev xys = Inr cs \<Longrightarrow> list_all rho_ok cs"
proof (induction xys arbitrary: prev cs)
  case Nil
  then show ?case by simp
next
  case (Cons xy xys)
  obtain x y where xy: "xy = (x, y)" by (cases xy)
  from Cons show ?case unfolding xy
    by (auto simp: Let_def rho_ok_def normalize_rho_bounds split: if_splits sum.splits)
qed

lemma run_rho:
  assumes "run p = Inr cs"
  shows "list_all rho_ok cs"
proof (cases p)
  case (Hypotrochoid R r d n s c)
  with assms show ?thesis
    by (auto simp: generate_hypotrochoid_def split: sum.splits dest: hypotrochoid_loop_rho)
next
  case (Epitrochoid R r d n s c)
  with assms show ?thesis
    by (auto simp: generate_epitrochoid_def split: sum.splits dest: epitrochoid_loop_rho)
next
  case (Rose n d np s c)
  with assms show ?thesis
    by (auto simp: generate_rose_def split: sum.splits dest: rose_loop_rho)
next
  case (Lissajous a b delta n s c)
  with assms show ?thesis
    by (auto simp: generate_lissajous_def lissajous_loop_rho split: sum.splits)
next
  case (CustomParametric xf yf ts te n s c auto_scale)
  with assms show ?thesis
    by (auto simp: generate_custom_parametric_def Let_def split: sum.splits dest: custom_loop_rho)
qed

subsection \<open>Number of emitted coordinates\<close>

lemma hypotrochoid_loop_length:
  "hypotrochoid_loop R r d s c prev ts = Inr cs \<Longrightarrow> length cs = length ts"
proof (induction ts arbitrary: prev cs)
  case Nil
  then show ?case by simp
next
  case (Cons t ts)
  then show ?case
    by (auto simp: Let_def split: if_splits sum.splits)
qed

lemma epitrochoid_loop_length:
  "epitrochoid_loop R r d s c prev ts = Inr cs \<Longrightarrow> length cs = length ts"
proof (induction ts arbitrary: prev cs)
  case Nil
  then show ?case by simp
next
  case (Cons t ts)
  then show ?case
    by (auto simp: Let_def split: if_splits sum.splits)
qed

lemma rose_loop_length:
  "rose_loop n d s c ts = Inr cs \<Longrightarrow> length cs = length ts"
proof (induction ts arbitrary: cs)
  case Nil
  then show ?case by simp
next
  case (Cons t ts)
  then show ?case
    by (auto simp: Let_def split: if_splits sum.splits)
qed

lemma lissajous_loop_length:
  "length (lissajous_loop a b delta s c prev ts) = length ts"
  by (induction ts arbitrary: prev) (simp_all add: Let_def)

lemma custom_loop_length:
  "custom_loop m s c prev xys = Inr cs \<Longrightarrow> length cs = length xys"
proof (induction xys arbitrary: prev cs)
  case Nil
  then show ?case by simp
next
  case (Cons xy xys)
  obtain x y where xy: "xy = (x, y)" by (cases xy)
  from Cons show ?case unfolding xy
    by (auto simp: Let_def split: if_splits sum.splits)
qed

lemma run_length:
  assumes "run p = Inr cs"
  shows "length cs = nat (num_points_of p)"
proof (cases p)
  case (Hypotrochoid R r d n s c)
  with assms show ?thesis
    by (auto simp: generate_hypotrochoid_def split: sum.splits
        dest!: hypotrochoid_loop_length linspace_length)
next
  case (Epitrochoid R r d n s c)
  with assms show ?thesis
    by (auto simp: generate_epitrochoid_def split: sum.splits
        dest!: epitrochoid_loop_length linspace_length)
next
  case (Rose n d np s c)
  with assms show ?thesis
    by (auto simp: generate_rose_def split: sum.splits dest!: rose_loop_length linspace_length)
next
  case (Lissajous a b delta n s c)
  with assms show ?thesis
    by (auto simp: generate_lissajous_def lissajous_loop_length split: sum.splits
        dest!: linspace_length)
next
  case (CustomParametric xf yf ts te n s c auto_scale)
  with assms show ?thesis
    by (auto simp: generate_custom_parametric_def Let_def split: sum.splits
        dest!: custom_loop_length linspace_length)
qed

subsection \<open>Independence of the scaling\<close>

text \<open>
  A loop that returns for one \<open>scale\<close> and \<open>center_offset\<close> returns for every other
  pair, with the same angles and with the clamped radius \<open>raw * scale + center_offset\<close>
  of each raw value.
\<close>

lemma rescaled_Cons:
  "rescaled s c (p # cs) (raw # raws) =
     (fst p, normalize_rho (raw * s + c) 1) # rescaled s c cs raws"
  by (simp add: rescaled_def)

lemma rescaled_Nil: "rescaled s c [] [] = []"
  by (simp add: rescaled_def)

lemma hypotrochoid_loop_rescale:
  "hypotrochoid_loop R r d s c prev ts = Inr cs \<Longrightarrow>
   hypotrochoid_loop R r d s' c' prev ts =
     Inr (rescaled s' c' cs (raw_radii (Hypotrochoid R r d n s c) ts))"
proof (induction ts arbitrary: prev cs)
  case Nil
  then show ?case by (simp add: rescaled_Nil)
next
  case (Cons t ts)
  then show ?case
    by (auto simp: Let_def rescaled_Cons split: if_splits sum.splits)
qed

lemma epitrochoid_loop_rescale:
  "epitrochoid_loop R r d s c prev ts = Inr cs \<Longrightarrow>
   epitrochoid_loop R r d s' c' prev ts =
     Inr (rescaled s' c' cs (raw_radii (Epitrochoid R r d n s c) ts))"
proof (induction ts arbitrary: prev cs)
  case Nil
  then show ?case by (simp add: rescaled_Nil)
next
  case (Cons t ts)
  then show ?case
    by (auto simp: Let_def rescaled_Cons split: if_splits sum.splits)
qed

lemma rose_loop_rescale:
  "rose_loop n d s c ts = Inr cs \<Longrightarrow>
   rose_loop n d s' c' ts = Inr (rescaled s' c' cs (raw_radii (Rose n d np s c) ts))"
proof (induction ts arbitrary: cs)
  case Nil
  then show ?case by (simp add: rescaled_Nil)
next
  case (Cons t ts)
  then show ?case
    by (auto simp: Let_def rescaled_Cons split: if_splits sum.splits)
qed

lemma lissajous_loop_rescale:
  "lissajous_loop a b delta s' c' prev ts =
     rescaled s' c' (lissajous_loop a b delta s c prev ts)
       (raw_radii (Lissajous a b delta n s c) ts)"
proof (induction ts arbitrary: prev)
  case Nil
  then show ?case by (simp add: rescaled_Nil)
next
  case (Cons t ts)
  then show ?case
    by (simp add: Let_def rescaled_Cons)
qed

lemma custom_loop_rescale:
  "custom_loop m s c prev xys = Inr cs \<Longrightarrow>
   custom_loop m s' c' prev xys =
     Inr (rescaled s' c' cs (map (\<lambda>(x, y). sqrt (x * x + y * y) / m) xys))"
proof (induction xys arbitrary: prev cs)
  case Nil
  then show ?case by (simp add: rescaled_Nil)
next
  case (Cons xy xys)
  obtain x y where xy: "xy = (x, y)" by (cases xy)
  from Cons show ?case unfolding xy
    by (auto simp: Let_def rescaled_Cons split: if_splits sum.splits)
qed

lemma run_rescale:
  assumes "run p = Inr cs"
  shows "\<exists>ts. length ts = length cs \<and>
           (\<forall>s c. run (with_scale s c p) = Inr (rescaled s c cs (raw_radii p ts)))"
proof (cases p)
  case (Hypotrochoid R r d n s0 c0)
  with assms obtain t_max ts where
    ts: "hypotrochoid_t_max R r = Inr t_max" "linspace 0 t_max n = Inr ts"
      "hypotrochoid_loop R r d s0 c0 0 ts = Inr cs"
    by (auto simp: generate_hypotrochoid_def split: sum.splits)
  have "length ts = length cs"
    using hypotrochoid_loop_length [OF ts(3)] by simp
  moreover have "run (with_scale s c p) = Inr (rescaled s c cs (raw_radii p ts))" for s c
    using hypotrochoid_loop_rescale [OF ts(3), of s c n]
    by (simp add: Hypotrochoid generate_hypotrochoid_def ts(1,2))
  ultimately show ?thesis by blast
next
  case (Epitrochoid R r d n s0 c0)
  with assms obtain t_max ts where
    ts: "epitrochoid_t_max R r = Inr t_max" "linspace 0 t_max n = Inr ts"
      "epitrochoid_loop R r d s0 c0 0 ts = Inr cs"
    by (auto simp: generate_epitrochoid_def split: sum.splits)
  have "length ts = length cs"
    using epitrochoid_loop_length [OF ts(3)] by simp
  moreover have "run (with_scale s c p) = Inr (rescaled s c cs (raw_radii p ts))" for s c
    using epitrochoid_loop_rescale [OF ts(3), of s c n]
    by (simp add: Epitrochoid generate_epitrochoid_def ts(1,2))
  ultimately show ?thesis by blast
next
  case (Rose n d np s0 c0)
  with assms obtain t_max ts where
    ts: "rose_t_max n d = Inr t_max" "linspace 0 t_max np = Inr ts"
      "rose_loop n d s0 c0 ts = Inr cs"
    by (auto simp: generate_rose_def split: sum.splits)
  have "length ts = length cs"
    using rose_loop_length [OF ts(3)] by simp
  moreover have "run (with_scale s c p) = Inr (rescaled s c cs (raw_radii p ts))" for s c
    using rose_loop_rescale [OF ts(3), of s c np]
    by (simp add: Rose generate_rose_def ts(1,2))
  ultimately show ?thesis by blast
next
  case (Lissajous a b delta n s0 c0)
  with assms obtain period ts where
    ts: "lissajous_period a b = Inr period" "linspace 0 period n = Inr ts"
      "lissajous_loop a b delta s0 c0 0 ts = cs"
    by (auto simp: generate_lissajous_def split: sum.splits)
  have "length ts = length cs"
    using lissajous_loop_length [of a b delta s0 c0 0 ts] ts(3) by simp
  moreover have "run (with_scale s c p) = Inr (rescaled s c cs (raw_radii p ts))" for s c
    using lissajous_loop_rescale [of a b delta s c 0 ts s0 c0 n]
    by (simp add: Lissajous generate_lissajous_def ts)
  ultimately show ?thesis by blast
next
  case (CustomParametric xf yf t0 t1 n s0 c0 auto_scale)
  with assms obtain ts m where
    ts: "linspace t0 t1 n = Inr ts"
      "custom_max_r auto_scale (map (\<lambda>t. (xf t, yf t)) ts) = Inr m"
      "custom_loop m s0 c0 0 (map (\<lambda>t. (xf t, yf t)) ts) = Inr cs"
    by (auto simp: generate_custom_parametric_def Let_def split: sum.splits)
  have "length ts = length cs"
    using custom_loop_length [OF ts(3)] by simp
  moreover have "run (with_scale s c p) = Inr (rescaled s c cs (raw_radii p ts))" for s c
    using custom_loop_rescale [OF ts(3), of s c]
    by (simp add: CustomParametric generate_custom_parametric_def ts(1,2) Let_def)
  ultimately show ?thesis by blast
qed

subsection \<open>The first angle\<close>

lemma hypotrochoid_loop_first:
  "hypotrochoid_loop R r d s c 0 ts = Inr (p # cs) \<Longrightarrow> - pi \<le> fst p \<and> fst p \<le> pi"
  using atan2_bounds
  by (cases ts) (auto simp: Let_def unwrap_theta_first less_imp_le split: if_splits sum.splits)

lemma epitrochoid_loop_first:
  "epitrochoid_loop R r d s c 0 ts = Inr (p # cs) \<Longrightarrow> - pi \<le> fst p \<and> fst p \<le> pi"
  using atan2_bounds
  by (cases ts) (auto simp: Let_def unwrap_theta_first less_imp_le split: if_splits sum.splits)

lemma lissajous_loop_first:
  "lissajous_loop a b delta s c 0 ts = p # cs \<Longrightarrow> - pi \<le> fst p \<and> fst p \<le> pi"
  using atan2_bounds
  by (cases ts) (auto simp: Let_def unwrap_theta_first less_imp_le split: if_splits sum.splits)

lemma custom_loop_first:
  "custom_loop m s c 0 xys = Inr (p # cs) \<Longrightarrow> - pi \<le> fst p \<and> fst p \<le> pi"
  using atan2_bounds
  by (cases xys) (auto simp: Let_def unwrap_theta_first less_imp_le split: if_splits sum.splits)

subsection \<open>Concrete runs\<close>

lemma gcd_1000_250: "gcd (1000::int) 250 = 250"
  by code_simp

lemma gcd_1000_300: "gcd (1000::int) 300 = 100"
  by code_simp

lemma gcd_3000_4000: "gcd (3000::int) 4000 = 1000"
  by code_simp

lemma lcm_3000_4000: "lcm (3000::int) 4000 = 12000"
  by code_simp

lemma sin_3pi_2: "sin (3 * pi / 2) = - 1"
  using sin_3over2_pi by simp

lemma sin_5pi_2: "sin (5 * pi / 2) = 1"
proof -
  have "sin (pi / 2 + 2 * pi) = sin (pi / 2)" by (rule sin_periodic)
  moreover have "pi / 2 + 2 * pi = 5 * pi / 2" by simp
  ultimately show ?thesis by simp
qed

lemma full_turns:
  "cos (8 * pi) = 1" "sin (8 * pi) = 0" "cos (24 * pi) = 1" "sin (24 * pi) = 0"
  using cos_int_2pin [of 4] sin_int_2pin [of 4] cos_int_2pin [of 12] sin_int_2pin [of 12]
  by simp_all

lemma lissajous_run:
  "generate_lissajous 1 1 (pi / 2) 3 1 0 =
     Inr [(0, 1 / sqrt 2), (pi, 1 / sqrt 2), (0, 1 / sqrt 2)]"
  by (simp add: generate_lissajous_def lissajous_period_def py_int_def float_round_values float_round_zero linspace_def upt_rec
      Let_def atan2_pos_axis atan2_neg_axis unwrap_theta_values normalize_rho_def
      sin_3pi_2 sin_5pi_2 min_absorb2)

lemma hypotrochoid_run:
  "generate_hypotrochoid 1 (1 / 4) (1 / 4) 2 1 0 = Inr [(0, 4 / 5), (0, 4 / 5)]"
  by (simp add: generate_hypotrochoid_def hypotrochoid_t_max_def py_int_def float_round_values float_round_zero gcd_1000_250
      linspace_def upt_rec Let_def atan2_pos_axis unwrap_theta_values normalize_rho_def
      full_turns)

lemma hypotrochoid_tiny_radius_run:
  "generate_hypotrochoid 1 (1 / 2000) (1 / 2000) 2 1 0 =
     Inr [(0, 2000 / 2001), (0, 2000 / 2001)]"
  by (simp add: generate_hypotrochoid_def hypotrochoid_t_max_def py_int_def float_round_values float_round_zero linspace_def
      upt_rec Let_def atan2_pos_axis unwrap_theta_values normalize_rho_def)

lemma hypotrochoid_zero_radius_run:
  "generate_hypotrochoid 1 0 1 2 1 0 = Inl ZeroDivisionError"
  by (simp add: generate_hypotrochoid_def hypotrochoid_t_max_def py_int_def float_round_values float_round_zero)

lemma epitrochoid_run:
  "generate_epitrochoid 1 (1 / 4) (1 / 4) 1 1 (1 / 2) = Inr [(0, 1)]"
  by (simp add: generate_epitrochoid_def epitrochoid_t_max_def py_int_def float_round_values float_round_zero gcd_1000_250
      linspace_def Let_def atan2_pos_axis unwrap_theta_values normalize_rho_def)

lemma rose_single_run: "generate_rose 1 1 1 1 0 = Inr [(0, 1)]"
  by (simp add: generate_rose_def rose_t_max_def float_floordiv_def linspace_def
      normalize_rho_def)

lemma rose_negative_run:
  "generate_rose 1 (- 1) 2 1 0 = Inr [(0, 1), (- 4, \<bar>cos 4\<bar>)]"
  by (simp add: generate_rose_def rose_t_max_def float_floordiv_def linspace_def
      normalize_rho_def floor_minus_pi upt_rec)

lemma custom_run:
  "generate_custom_parametric (\<lambda>t. 1 - t) (\<lambda>t. 0) 0 2 3 1 0 False =
     Inr [(0, 1), (0, 0), (pi, 1)]"
  by (simp add: generate_custom_parametric_def custom_max_r_def linspace_def upt_rec Let_def
      unwrap_theta_values normalize_rho_def atan2_def)

lemma custom_line_run:
  "generate_custom_parametric (\<lambda>t. t) (\<lambda>t. 0) 0 2 3 s c False =
     Inr [(0, normalize_rho c 1), (0, normalize_rho (s + c) 1), (0, normalize_rho (2 * s + c) 1)]"
  by (simp add: generate_custom_parametric_def custom_max_r_def linspace_def upt_rec Let_def
      unwrap_theta_values atan2_def)

lemma hypotrochoid_scaled_run:
  "generate_hypotrochoid 1 (1 / 4) (1 / 4) 2 s c =
     Inr [(0, normalize_rho (4 / 5 * s + c) 1), (0, normalize_rho (4 / 5 * s + c) 1)]"
  by (simp add: generate_hypotrochoid_def hypotrochoid_t_max_def py_int_def float_round_values
      gcd_1000_250 linspace_def upt_rec Let_def atan2_pos_axis unwrap_theta_values full_turns)

section \<open>The sampling range\<close>

text \<open>
  In general the rose range is the floor of the quotient: the operator in
  \<open>2 * math.pi * d // gcd\<close> is a floor division.
\<close>

lemma rose_t_max_floor:
  "rose_t_max n d =
     (if n = 0 \<and> d = 0 then Inl ZeroDivisionError
      else Inr (of_int \<lfloor>(if even n \<or> even d then 2 * pi else pi) * of_int d
                          / of_int (gcd n d)\<rfloor>))"
  by (auto simp: rose_t_max_def float_floordiv_def Let_def)

text \<open>
  Claim C1. For the rose generator the sampling range should be the exact real value
  \<open>2 * pi * d / gcd n d\<close> when \<open>n\<close> or \<open>d\<close> is even and \<open>pi * d / gcd n d\<close> when both
  are odd. The code floors the quotient: for \<open>n = 5\<close>, \<open>d = 1\<close> (both odd, \<open>gcd = 1\<close>) it
  computes \<open>3\<close>, which is less than the claimed \<open>pi\<close>.
\<close>

theorem rose_t_max_is_floored:
  "rose_t_max 5 1 = Inr 3 \<and> (3::real) < pi * 1 / real_of_int (gcd 5 1)"
  using pi_gt_3 by (simp add: rose_t_max_def float_floordiv_def floor_pi)

text \<open>
  Claim C2, as stated: the hypotrochoid, epitrochoid and Lissajous ranges are
  \<open>2 * pi * lcm A B / B\<close> for the rationalized inputs \<open>A\<close> and \<open>B\<close>. It fails for the
  Lissajous generator, which divides the least common multiple by \<open>1000\<close>: for \<open>a = 3\<close>,
  \<open>b = 4\<close> the period is \<open>24 * pi\<close>, not \<open>2 * pi * 12000 / 4000 = 6 * pi\<close>.
\<close>

theorem lissajous_period_not_lcm_over_B:
  "lissajous_period 3 4 = Inr (24 * pi) \<and>
   lissajous_period 3 4 \<noteq>
     Inr (2 * pi * real_of_int (lcm (py_int (float_round (3 * 1000)))
                                    (py_int (float_round (4 * 1000))))
            / real_of_int (py_int (float_round (4 * 1000))))"
  using pi_gt_zero by (simp add: lissajous_period_def py_int_def float_round_values float_round_zero gcd_3000_4000 lcm_3000_4000)

text \<open>
  Claim C2, amended. Let \<open>A = int(R * 1000)\<close> and \<open>B = int(r * 1000)\<close>, not both zero, and
  \<open>L = A * B // gcd(A, B)\<close> (which is \<open>lcm A B\<close> when \<open>A * B\<close> is not negative). For the
  hypotrochoid and the epitrochoid with \<open>r \<noteq> 0\<close> the range is \<open>2 * pi * L / (r * 1000)\<close>,
  which is \<open>2 * pi * L / B\<close> whenever the product \<open>r * 1000\<close> is the integer \<open>B\<close>; for the
  Lissajous generator (with \<open>a = R\<close>, \<open>b = r\<close>) it is \<open>2 * pi * L / 1000\<close>. The products
  are the float products of the code.
\<close>

theorem t_max_formula:
  assumes A: "A = py_int (float_round (R * 1000))" and B: "B = py_int (float_round (r * 1000))"
    and nz: "A \<noteq> 0 \<or> B \<noteq> 0" and L: "L = A * B div gcd A B"
  shows "(r \<noteq> 0 \<longrightarrow>
            hypotrochoid_t_max R r = Inr (2 * pi * real_of_int L / float_round (r * 1000)) \<and>
            epitrochoid_t_max R r = Inr (2 * pi * real_of_int L / float_round (r * 1000))) \<and>
         (r \<noteq> 0 \<and> real_of_int B = float_round (r * 1000) \<longrightarrow>
            hypotrochoid_t_max R r = Inr (2 * pi * real_of_int L / real_of_int B) \<and>
            epitrochoid_t_max R r = Inr (2 * pi * real_of_int L / real_of_int B)) \<and>
         lissajous_period R r = Inr (2 * pi * real_of_int L / 1000) \<and>
         (0 \<le> A * B \<longrightarrow> L = lcm A B)"
proof -
  have g: "gcd (py_int (float_round (R * 1000))) (py_int (float_round (r * 1000))) \<noteq> 0"
    using nz A B by simp
  have p: "r \<noteq> 0 \<Longrightarrow> float_round (r * 1000) \<noteq> 0"
    by (simp add: float_round_eq_0_iff)
  have h: "r \<noteq> 0 \<Longrightarrow>
      hypotrochoid_t_max R r = Inr (2 * pi * real_of_int L / float_round (r * 1000))"
    using g p by (simp add: hypotrochoid_t_max_def Let_def A B L)
  have e: "r \<noteq> 0 \<Longrightarrow>
      epitrochoid_t_max R r = Inr (2 * pi * real_of_int L / float_round (r * 1000))"
    using g p by (simp add: epitrochoid_t_max_def Let_def A B L)
  have l: "lissajous_period R r = Inr (2 * pi * real_of_int L / 1000)"
    using g by (simp add: lissajous_period_def Let_def A B L)
  have m: "0 \<le> A * B \<Longrightarrow> L = lcm A B"
  proof -
    assume nn: "0 \<le> A * B"
    have gp: "0 < gcd A B"
      using nz by (simp add: gcd_pos_int)
    have "0 \<le> A * B div gcd A B"
      using nn by (simp add: pos_imp_zdiv_nonneg_iff [OF gp])
    then show "L = lcm A B"
      by (simp add: L lcm_gcd)
  qed
  show ?thesis using h e l m by simp
qed

text \<open>
  Two instances: \<open>R = 1\<close>, \<open>r = 1 / 4\<close>, and \<open>R = 1\<close> with the float nearest to 0.3, where
  \<open>B = 300\<close> and the range is \<open>20 * pi\<close>.
\<close>

theorem t_max_formula_witness:
  "hypotrochoid_t_max 1 (1 / 4) = Inr (8 * pi) \<and> epitrochoid_t_max 1 (1 / 4) = Inr (8 * pi) \<and>
   lissajous_period 1 (1 / 4) = Inr (2 * pi) \<and> (1000::int) = lcm 1000 250 \<and>
   py_int (float_round (float_03 * 1000)) = 300 \<and>
   hypotrochoid_t_max 1 float_03 = Inr (20 * pi)"
proof -
  have nz: "float_03 \<noteq> 0"
    by (simp add: float_03_def)
  show ?thesis
    using t_max_formula [of 1000 1 250 "1 / 4" 1000] t_max_formula [of 1000 1 300 float_03 3000]
    by (simp add: py_int_def float_round_values gcd_1000_250 gcd_1000_300 float_round_03 nz)
qed

section \<open>Continuity and bounds of the output\<close>

text \<open>
  Claim C3. In every run of the hypotrochoid, epitrochoid, Lissajous or custom-parametric
  generator, any two adjacent emitted coordinates satisfy
  \<open>\<bar>theta[i+1] - theta[i]\<bar> \<le> pi\<close>.
\<close>

theorem unwrapped_theta_continuous:
  assumes "run p = Inr cs" and "unwraps_theta p" and "Suc i < length cs"
  shows "\<bar>fst (cs ! Suc i) - fst (cs ! i)\<bar> \<le> pi"
proof -
  have "successively jump_ok (map fst cs)"
    using run_chain [OF assms(1,2)] by (cases cs) (simp_all add: successively_Cons)
  then have "jump_ok (map fst cs ! i) (map fst cs ! Suc i)"
    using assms(3) by (simp add: successively_conv_nth)
  then show ?thesis using assms(3) by (simp add: jump_ok_def)
qed

text \<open>
  A Lissajous run in which both jumps are exactly \<open>pi\<close>: the samples lie at
  \<open>(1, 0)\<close>, \<open>(-1, 0)\<close> and \<open>(1, 0)\<close>.
\<close>

theorem unwrapped_theta_continuous_witness:
  "run (Lissajous 1 1 (pi / 2) 3 1 0) =
     Inr [(0, 1 / sqrt 2), (pi, 1 / sqrt 2), (0, 1 / sqrt 2)] \<and>
   \<bar>pi - 0\<bar> \<le> pi \<and> \<bar>0 - pi\<bar> \<le> pi"
  using unwrapped_theta_continuous [of "Lissajous 1 1 (pi / 2) 3 1 0" _ 0]
    unwrapped_theta_continuous [of "Lissajous 1 1 (pi / 2) 3 1 0" _ 1]
  by (simp add: lissajous_run)

text \<open>
  Claim C4. For every generator and every parameter combination, the radius of every
  emitted coordinate lies in \<open>[0, 1]\<close>. Each emitted radius is the clamp of
  \<open>raw * scale + center_offset\<close>, where \<open>raw\<close> is the generator's radius of that sample
  before scaling; a value outside \<open>[0, 1]\<close> is replaced by the nearer bound. Whether the
  run returns does not depend on \<open>scale\<close> and \<open>center_offset\<close>: a run that returns for one
  pair returns, with the same angles, for every other pair, so no out-of-range value is
  ever rejected.
\<close>

theorem rho_bounded:
  assumes "run p = Inr cs"
  shows "(\<forall>(theta, rho) \<in> set cs. 0 \<le> rho \<and> rho \<le> 1) \<and>
         (\<exists>ts. length ts = length cs \<and>
            (\<forall>s c. run (with_scale s c p) = Inr (rescaled s c cs (raw_radii p ts)))) \<and>
         (\<forall>v. normalize_rho v 1 = (if v \<le> 0 then 0 else if 1 \<le> v then 1 else v))"
proof -
  have "\<forall>(theta, rho) \<in> set cs. 0 \<le> rho \<and> rho \<le> 1"
    using run_rho [OF assms] by (auto simp: list_all_iff rho_ok_def)
  then show ?thesis
    using run_rescale [OF assms] normalize_rho_saturates by blast
qed

text \<open>
  A custom run along the line \<open>x = t\<close>, \<open>y = 0\<close> with raw radii \<open>0\<close>, \<open>1\<close>, \<open>2\<close>: with
  \<open>scale = 1\<close> and \<open>center_offset = - 1 / 2\<close> the first value saturates at \<open>0\<close>, the
  second is emitted as it is and the third saturates at \<open>1\<close>. A hypotrochoid run with
  raw radius \<open>4 / 5\<close>, unclamped and saturated at either bound, and the epitrochoid run
  with \<open>scale = 1\<close>, \<open>center_offset = 1 / 2\<close>, whose value \<open>7 / 6\<close> saturates at \<open>1\<close>.
\<close>

theorem rho_bounded_witness:
  "run (CustomParametric (\<lambda>t. t) (\<lambda>t. 0) 0 2 3 1 (- 1 / 2) False) =
     Inr [(0, 0), (0, 1 / 2), (0, 1)] \<and>
   raw_radii (CustomParametric (\<lambda>t. t) (\<lambda>t. 0) 0 2 3 1 (- 1 / 2) False) [0, 1, 2] = [0, 1, 2] \<and>
   run (with_scale 2 0 (CustomParametric (\<lambda>t. t) (\<lambda>t. 0) 0 2 3 1 (- 1 / 2) False)) =
     Inr [(0, 0), (0, 1), (0, 1)] \<and>
   run (Hypotrochoid 1 (1 / 4) (1 / 4) 2 1 0) = Inr [(0, 4 / 5), (0, 4 / 5)] \<and>
   raw_radii (Hypotrochoid 1 (1 / 4) (1 / 4) 2 1 0) [0, 8 * pi] = [4 / 5, 4 / 5] \<and>
   run (with_scale 1 (1 / 2) (Hypotrochoid 1 (1 / 4) (1 / 4) 2 1 0)) = Inr [(0, 1), (0, 1)] \<and>
   run (with_scale 1 (- 1) (Hypotrochoid 1 (1 / 4) (1 / 4) 2 1 0)) = Inr [(0, 0), (0, 0)] \<and>
   run (Epitrochoid 1 (1 / 4) (1 / 4) 1 1 (1 / 2)) = Inr [(0, 1)] \<and>
   normalize_rho (7 / 6) 1 = 1"
  using rho_bounded [of "CustomParametric (\<lambda>t. t) (\<lambda>t. 0) 0 2 3 1 (- 1 / 2) False"
      "[(0, 0), (0, 1 / 2), (0, 1)]"]
    rho_bounded [of "Hypotrochoid 1 (1 / 4) (1 / 4) 2 1 0" "[(0, 4 / 5), (0, 4 / 5)]"]
    rho_bounded [of "Epitrochoid 1 (1 / 4) (1 / 4) 1 1 (1 / 2)" "[(0, 1)]"]
  by (simp add: custom_line_run hypotrochoid_scaled_run epitrochoid_run normalize_rho_def
      custom_max_r_def full_turns)

text \<open>
  Claim C10. In every run of the hypotrochoid, epitrochoid, Lissajous or
  custom-parametric generator that emits a coordinate, the first angle lies in
  \<open>[- pi, pi]\<close>: \<open>prev_theta\<close> starts at \<open>0\<close>, so the first \<open>atan2\<close> value is emitted
  as it is.
\<close>

theorem first_theta_in_range:
  assumes "run p = Inr (c # cs)" and "unwraps_theta p"
  shows "- pi \<le> fst c \<and> fst c \<le> pi \<and> (\<forall>y x. unwrap_theta 0 (atan2 y x) = atan2 y x)"
proof (cases p)
  case (Hypotrochoid R r d n s c)
  with assms(1) show ?thesis
    by (auto simp: generate_hypotrochoid_def unwrap_theta_first split: sum.splits
        dest: hypotrochoid_loop_first)
next
  case (Epitrochoid R r d n s c)
  with assms(1) show ?thesis
    by (auto simp: generate_epitrochoid_def unwrap_theta_first split: sum.splits
        dest: epitrochoid_loop_first)
next
  case (Rose n d np s c)
  with assms(2) show ?thesis by simp
next
  case (Lissajous a b delta n s c)
  with assms(1) show ?thesis
    by (auto simp: generate_lissajous_def unwrap_theta_first split: sum.splits
        dest: lissajous_loop_first)
next
  case (CustomParametric xf yf ts te n s c auto_scale)
  with assms(1) show ?thesis
    by (auto simp: generate_custom_parametric_def Let_def unwrap_theta_first split: sum.splits
        dest: custom_loop_first)
qed

theorem first_theta_in_range_witness:
  "run (Hypotrochoid 1 (1 / 4) (1 / 4) 2 1 0) = Inr [(0, 4 / 5), (0, 4 / 5)] \<and>
   - pi \<le> 0 \<and> 0 \<le> pi"
  using first_theta_in_range [of "Hypotrochoid 1 (1 / 4) (1 / 4) 2 1 0" "(0, 4 / 5)" "[(0, 4 / 5)]"]
  by (simp add: hypotrochoid_run)

section \<open>Degenerate inputs\<close>

lemma t_max_zero_radius:
  "hypotrochoid_t_max R 0 = Inl ZeroDivisionError" "epitrochoid_t_max R 0 = Inl ZeroDivisionError"
  by (simp_all add: hypotrochoid_t_max_def epitrochoid_t_max_def Let_def float_round_zero)

lemma t_max_both_zero:
  assumes "py_int (float_round (a * 1000)) = 0" and "py_int (float_round (b * 1000)) = 0"
  shows "hypotrochoid_t_max a b = Inl ZeroDivisionError"
    and "epitrochoid_t_max a b = Inl ZeroDivisionError"
    and "lissajous_period a b = Inl ZeroDivisionError"
  using assms
  by (simp_all add: hypotrochoid_t_max_def epitrochoid_t_max_def lissajous_period_def)

lemma t_max_one_zero:
  assumes "py_int (float_round (r * 1000)) = 0" and "r \<noteq> 0"
    and "py_int (float_round (R * 1000)) \<noteq> 0"
  shows "hypotrochoid_t_max R r = Inr 0" and "epitrochoid_t_max R r = Inr 0"
    and "lissajous_period R r = Inr 0"
  using assms
  by (simp_all add: hypotrochoid_t_max_def epitrochoid_t_max_def lissajous_period_def
      float_round_eq_0_iff)

lemma t_max_errors:
  "hypotrochoid_t_max R r = Inl e \<Longrightarrow> e = ZeroDivisionError"
  "epitrochoid_t_max R r = Inl e \<Longrightarrow> e = ZeroDivisionError"
  "rose_t_max n d = Inl e \<Longrightarrow> e = ZeroDivisionError"
  "lissajous_period a b = Inl e \<Longrightarrow> e = ZeroDivisionError"
  by (auto simp: hypotrochoid_t_max_def epitrochoid_t_max_def rose_t_max_def lissajous_period_def
      float_floordiv_def Let_def split: if_splits)

text \<open>
  Claim C5, as stated: when the radius inputs of a ratio-based generator rationalize to
  zero, the generator fails with an invalid-parameter error instead of dividing by zero.
  The code has no such check. With \<open>r = 1 / 2000\<close> the rationalized radius
  \<open>int(r * 1000)\<close> is \<open>0\<close> and the hypotrochoid generator returns a sequence; with
  \<open>r = 0\<close> the division by zero is performed and its \<open>ZeroDivisionError\<close> is what the
  caller sees.
\<close>

theorem zero_rationalized_radius_not_rejected:
  "py_int (float_round (1 / 2000 * 1000)) = 0 \<and>
   generate_hypotrochoid 1 (1 / 2000) (1 / 2000) 2 1 0 =
     Inr [(0, 2000 / 2001), (0, 2000 / 2001)] \<and>
   generate_hypotrochoid 1 0 1 2 1 0 = Inl ZeroDivisionError"
  by (simp add: hypotrochoid_tiny_radius_run hypotrochoid_zero_radius_run py_int_def float_round_values float_round_zero)

text \<open>
  Claim C5, amended. If \<open>r = 0\<close>, the hypotrochoid and epitrochoid generators fail with
  the \<open>ZeroDivisionError\<close> of the division itself; so do they, and the Lissajous
  generator, when both inputs rationalize to zero. If \<open>r\<close> rationalizes to zero without
  being zero and the other input does not, the range computation succeeds with the
  value \<open>0\<close>.
\<close>

theorem zero_radius_raises_ZeroDivisionError:
  "(r = 0 \<longrightarrow>
      generate_hypotrochoid R r d num_points scale center_offset = Inl ZeroDivisionError \<and>
      generate_epitrochoid R r d num_points scale center_offset = Inl ZeroDivisionError) \<and>
   (py_int (float_round (R * 1000)) = 0 \<and> py_int (float_round (r * 1000)) = 0 \<longrightarrow>
      generate_hypotrochoid R r d num_points scale center_offset = Inl ZeroDivisionError \<and>
      generate_epitrochoid R r d num_points scale center_offset = Inl ZeroDivisionError \<and>
      generate_lissajous R r delta num_points scale center_offset = Inl ZeroDivisionError) \<and>
   (py_int (float_round (r * 1000)) = 0 \<and> r \<noteq> 0 \<and>
    py_int (float_round (R * 1000)) \<noteq> 0 \<longrightarrow>
      hypotrochoid_t_max R r = Inr 0 \<and> epitrochoid_t_max R r = Inr 0 \<and>
      lissajous_period R r = Inr 0)"
  by (simp add: generate_hypotrochoid_def generate_epitrochoid_def generate_lissajous_def
      t_max_zero_radius t_max_both_zero t_max_one_zero)

theorem zero_radius_raises_ZeroDivisionError_witness:
  "generate_hypotrochoid 1 0 1 2 1 0 = Inl ZeroDivisionError \<and>
   generate_epitrochoid 1 0 1 2 1 0 = Inl ZeroDivisionError \<and>
   generate_lissajous (1 / 2000) 0 0 2 1 0 = Inl ZeroDivisionError \<and>
   hypotrochoid_t_max 1 (1 / 2000) = Inr 0"
  using zero_radius_raises_ZeroDivisionError [of 0 1 1 2 1 0 0]
    zero_radius_raises_ZeroDivisionError [of 0 "1 / 2000" 1 2 1 0 0]
    zero_radius_raises_ZeroDivisionError [of "1 / 2000" 1 1 2 1 0 0]
  by (simp add: py_int_def float_round_values float_round_zero)

lemma single_sample:
  "(\<exists>c. hypotrochoid_loop R r d s off prev [t] = Inr [c]) \<or>
     hypotrochoid_loop R r d s off prev [t] = Inl ZeroDivisionError"
  "(\<exists>c. epitrochoid_loop R r d s off prev [t] = Inr [c]) \<or>
     epitrochoid_loop R r d s off prev [t] = Inl ZeroDivisionError"
  "(\<exists>c. rose_loop n k s off [t] = Inr [c]) \<or> rose_loop n k s off [t] = Inl ZeroDivisionError"
  "\<exists>c. lissajous_loop a b delta s off prev [t] = [c]"
  "(\<exists>c. custom_loop m s off prev [xy] = Inr [c]) \<or>
     custom_loop m s off prev [xy] = Inl ZeroDivisionError"
  by (cases xy; simp add: Let_def)+

lemma custom_max_r_single: "\<exists>m. custom_max_r auto_scale [xy] = Inr m"
  by (cases xy) (simp add: custom_max_r_def)

text \<open>
  Claim C6, as stated: every generator called with \<open>num_points = 1\<close> fails with an
  invalid-parameter error. The code does not check \<open>num_points\<close>: the sampler returns the
  single value \<open>start\<close> and the rose generator returns one coordinate.
\<close>

theorem single_point_is_returned: "generate_rose 1 1 1 1 0 = Inr [(0, 1)]"
  by (rule rose_single_run)

text \<open>
  Claim C6, amended. For \<open>num_points = 1\<close> the sampler returns the one value \<open>start\<close>,
  and every generator returns a sequence of exactly one coordinate unless one of its
  divisions is a division by zero, which raises \<open>ZeroDivisionError\<close>.
\<close>

theorem single_point_run:
  assumes "num_points_of p = 1"
  shows "((\<exists>c. run p = Inr [c]) \<or> run p = Inl ZeroDivisionError) \<and>
         linspace start stop 1 = Inr [start]"
proof (cases p)
  case (Hypotrochoid R r d n s c)
  with assms show ?thesis
    using single_sample(1) [of R r d s c 0 0]
    by (auto simp: generate_hypotrochoid_def linspace_one split: sum.splits dest: t_max_errors)
next
  case (Epitrochoid R r d n s c)
  with assms show ?thesis
    using single_sample(2) [of R r d s c 0 0]
    by (auto simp: generate_epitrochoid_def linspace_one split: sum.splits dest: t_max_errors)
next
  case (Rose n d np s c)
  with assms show ?thesis
    using single_sample(3) [of n d s c 0]
    by (auto simp: generate_rose_def linspace_one split: sum.splits dest: t_max_errors)
next
  case (Lissajous a b delta n s c)
  with assms show ?thesis
    using single_sample(4) [of a b delta s c 0 0]
    by (auto simp: generate_lissajous_def linspace_one split: sum.splits dest: t_max_errors)
next
  case (CustomParametric xf yf ts te n s c auto_scale)
  obtain m where m: "custom_max_r auto_scale [(xf ts, yf ts)] = Inr m"
    using custom_max_r_single by blast
  from CustomParametric assms show ?thesis
    using single_sample(5) [of m s c 0 "(xf ts, yf ts)"]
    by (auto simp: generate_custom_parametric_def linspace_one m)
qed

theorem single_point_run_witness:
  "run (Rose 1 1 1 1 0) = Inr [(0, 1)] \<and> linspace 0 3 1 = Inr [0]"
  using single_point_run [of "Rose 1 1 1 1 0" 0 3] by (simp add: rose_single_run)

lemma foldl_max_zeros: "foldl max (0::real) (map (\<lambda>t. 0) ts) = 0"
  by (induction ts) simp_all

lemma custom_max_r_zero:
  "ts \<noteq> [] \<Longrightarrow> custom_max_r True (map (\<lambda>t. (0, 0)) ts) = Inr 1"
  by (cases ts) (simp_all add: custom_max_r_def foldl_max_zeros comp_def)

lemma custom_loop_zero:
  "m \<noteq> 0 \<Longrightarrow> custom_loop m scale center_offset 0 (map (\<lambda>t. (0, 0)) ts) =
     Inr (replicate (length ts) (0, normalize_rho center_offset 1))"
  by (induction ts) (simp_all add: atan2_def unwrap_theta_id)

text \<open>
  Claim C7. For the custom-parametric generator with \<open>auto_scale\<close> and the functions
  \<open>x(t) = 0\<close>, \<open>y(t) = 0\<close>, the run does not divide by zero: the maximal radius \<open>0\<close> is
  replaced by \<open>1\<close>, and every emitted radius is \<open>center_offset\<close> clamped to \<open>[0, 1]\<close>.
  The only failures of such a run are the \<open>ValueError\<close>s for a negative \<open>num_points\<close>
  and for the maximum of no samples at all.
\<close>

theorem degenerate_custom_curve:
  "generate_custom_parametric (\<lambda>t. 0) (\<lambda>t. 0) t_start t_end num_points scale center_offset True =
     (if num_points < 0 then Inl (ValueError ''Number of samples must be non-negative'')
      else if num_points = 0 then Inl (ValueError ''max() arg is an empty sequence'')
      else Inr (replicate (nat num_points) (0, normalize_rho center_offset 1))) \<and>
   (0 < num_points \<longrightarrow>
      custom_max_r True (replicate (nat num_points) (0, 0)) = Inr 1)"
proof -
  have pos: "custom_max_r True (replicate (nat num_points) (0, 0)) = Inr 1" if "0 < num_points"
    using that custom_max_r_zero [of "[0..<nat num_points]"] by (simp add: map_replicate_const)
  have run: "generate_custom_parametric (\<lambda>t. 0) (\<lambda>t. 0) t_start t_end num_points scale
      center_offset True = Inr (replicate (nat num_points) (0, normalize_rho center_offset 1))"
    if gt: "0 < num_points"
  proof -
    obtain ts where ts: "linspace t_start t_end num_points = Inr ts"
      and len: "length ts = nat num_points"
      using gt linspace_returns [of num_points t_start t_end] by auto
    have ne: "ts \<noteq> []" using len gt by auto
    show ?thesis
      using custom_loop_zero [of 1 scale center_offset ts]
      by (simp add: generate_custom_parametric_def ts custom_max_r_zero [OF ne] len)
  qed
  have neg: "num_points < 0 \<Longrightarrow> generate_custom_parametric (\<lambda>t. 0) (\<lambda>t. 0) t_start t_end
      num_points scale center_offset True =
        Inl (ValueError ''Number of samples must be non-negative'')"
    by (simp add: generate_custom_parametric_def linspace_def)
  have zero: "num_points = 0 \<Longrightarrow> generate_custom_parametric (\<lambda>t. 0) (\<lambda>t. 0) t_start t_end
      num_points scale center_offset True = Inl (ValueError ''max() arg is an empty sequence'')"
    by (simp add: generate_custom_parametric_def linspace_def custom_max_r_def)
  show ?thesis
    using pos run neg zero by (cases "num_points < 0"; cases "num_points = 0") simp_all
qed

theorem degenerate_custom_curve_witness:
  "generate_custom_parametric (\<lambda>t. 0) (\<lambda>t. 0) 0 (2 * pi) 3 1 (3 / 2) True =
     Inr [(0, 1), (0, 1), (0, 1)] \<and>
   custom_max_r True [(0, 0), (0, 0), (0, 0)] = Inr 1"
  using degenerate_custom_curve [of 0 "2 * pi" 3 1 "3 / 2"]
  by (simp add: normalize_rho_def numeral_3_eq_3)

section \<open>Sampling\<close>

text \<open>
  Claim C8, as stated: for every generator and \<open>num_points \<ge> 2\<close> the sampled parameter
  values are non-decreasing. The sampler follows the direction of the interval: the
  custom-parametric generator passes the caller's \<open>t_start\<close> and \<open>t_end\<close> unchanged, and
  \<open>numpy.linspace(1, 0, 2)\<close> is \<open>[1, 0]\<close>; the rose generator with \<open>d = -1\<close> samples
  \<open>[0, -4]\<close> and emits these values as its angles.
\<close>

theorem linspace_can_decrease:
  "linspace 1 0 2 = Inr [1, 0] \<and> \<not> sorted [1, 0 :: real] \<and>
   generate_rose 1 (- 1) 2 1 0 = Inr [(0, 1), (- 4, \<bar>cos 4\<bar>)]"
  by (simp add: rose_negative_run linspace_def upt_rec)

text \<open>
  Claim C8, amended. For \<open>num_points \<ge> 2\<close> the sampler returns \<open>num_points\<close> values, the
  first equal to the start and the last equal to the end of the interval, with
  consecutive values differing by \<open>(end - start) / (num_points - 1)\<close>; they are
  non-decreasing when \<open>start \<le> end\<close> and non-increasing when \<open>end \<le> start\<close>. Every
  generator that returns emits exactly \<open>num_points\<close> coordinates.
\<close>

theorem linspace_sampling:
  assumes n: "2 \<le> num"
  shows "\<exists>ts. linspace start stop num = Inr ts \<and> length ts = nat num \<and>
           ts ! 0 = start \<and> ts ! (nat num - 1) = stop \<and>
           (\<forall>i. Suc i < nat num \<longrightarrow>
              ts ! Suc i - ts ! i = (stop - start) / (real_of_int num - 1)) \<and>
           (start \<le> stop \<longrightarrow> sorted ts) \<and>
           (stop \<le> start \<longrightarrow> sorted (rev ts)) \<and>
           (\<forall>p cs. num_points_of p = num \<and> run p = Inr cs \<longrightarrow> length cs = nat num)"
proof -
  define step where "step = (stop - start) / real_of_int (num - 1)"
  define ts where "ts = map (\<lambda>i. start + real i * step) [0..<nat num]"
  have lin: "linspace start stop num = Inr ts"
    using n by (simp add: linspace_many ts_def step_def)
  have len: "length ts = nat num"
    by (simp add: ts_def)
  have nth: "ts ! i = start + real i * step" if "i < nat num" for i
    using that by (simp add: ts_def)
  have first: "ts ! 0 = start"
    using n by (simp add: nth)
  have "real (nat num - 1) = real_of_int (num - 1)"
    using n by (simp add: of_nat_diff)
  then have "real (nat num - 1) * step = stop - start"
    using n by (simp add: step_def)
  then have last: "ts ! (nat num - 1) = stop"
    using n by (simp add: nth)
  have spacing: "ts ! Suc i - ts ! i = (stop - start) / (real_of_int num - 1)"
    if i: "Suc i < nat num" for i
  proof -
    have "ts ! Suc i - ts ! i = step"
      using i by (simp add: nth algebra_simps)
    then show ?thesis
      by (simp add: step_def)
  qed
  have up: "sorted ts" if le: "start \<le> stop"
  proof -
    have "0 \<le> step"
      using le n by (simp add: step_def)
    then have "ts ! i \<le> ts ! j" if "i \<le> j" "j < length ts" for i j
      using that by (simp add: nth len mult_right_mono)
    then show ?thesis
      by (simp add: sorted_iff_nth_mono)
  qed
  have down: "sorted (rev ts)" if ge: "stop \<le> start"
  proof -
    have "step \<le> 0"
      using ge n by (simp add: step_def divide_nonpos_pos)
    then have "ts ! j \<le> ts ! i" if "i \<le> j" "j < length ts" for i j
      using that by (simp add: nth len mult_right_mono_neg)
    then show ?thesis
      by (simp add: sorted_rev_iff_nth_mono)
  qed
  have count: "length cs = nat num" if "num_points_of p = num" "run p = Inr cs" for p cs
    using that run_length by blast
  show ?thesis
    using lin len first last spacing up down count by blast
qed

theorem linspace_sampling_witness:
  "linspace 0 2 3 = Inr [0, 1, 2] \<and> sorted [0, 1, 2 :: real] \<and>
   run (CustomParametric (\<lambda>t. 1 - t) (\<lambda>t. 0) 0 2 3 1 0 False) =
     Inr [(0, 1), (0, 0), (pi, 1)]"
  using linspace_sampling [of 3 0 2] by (simp add: custom_run linspace_def upt_rec)

section \<open>Dispatch\<close>

text \<open>
  Claim C9. Called with a pattern type that is none of the four recognized families,
  \<open>generate_and_save\<close> fails with the error of its final branch (the \<open>ValueError\<close>
  "Unknown pattern type"), before any generator runs and without writing a file.
\<close>

theorem unknown_pattern_type_fails:
  assumes "pattern_type \<noteq> HYPOTROCHOID" and "pattern_type \<noteq> EPITROCHOID"
    and "pattern_type \<noteq> ROSE" and "pattern_type \<noteq> LISSAJOUS"
  shows "generate_and_save self fmt pattern_type filename kwargs fs =
           (Inl (ValueError (''Unknown pattern type: '' @ pattern_type)), fs)"
  using assms by (simp add: generate_and_save_def)

theorem unknown_pattern_type_fails_witness:
  "generate_and_save \<lparr>output_dir = ''./patterns''\<rparr> (\<lambda>v. ''0.00000'') ''custom'' ''my_spiro''
     (Hypotrochoid 1 (1 / 4) (1 / 2) 2000 (95 / 100) 0)
     \<lparr>contents = Map.empty, writable = (\<lambda>path. True)\<rparr> =
     (Inl (ValueError ''Unknown pattern type: custom''),
      \<lparr>contents = Map.empty, writable = (\<lambda>path. True)\<rparr>)"
  using unknown_pattern_type_fails [of "''custom''" "\<lparr>output_dir = ''./patterns''\<rparr>"
      "\<lambda>v. ''0.00000''" "''my_spiro''" "Hypotrochoid 1 (1 / 4) (1 / 2) 2000 (95 / 100) 0"
      "\<lparr>contents = Map.empty, writable = (\<lambda>path. True)\<rparr>"]
  by (simp add: HYPOTROCHOID_def EPITROCHOID_def ROSE_def LISSAJOUS_def)

end
